theory Spec2Isabelle
  imports Main "HOL-Library.Multiset"
begin

section \<open>JavaScript values used by the extension tools\<close>

text \<open>
  Strings are byte strings; on ASCII text they coincide with JavaScript strings.
  A thrown value is kept as a value of \<open>js_error\<close>; \<open>error_text\<close> is the expression
  \<^verbatim>\<open>error instanceof Error ? error.message : String(error)\<close> of the handlers.
\<close>

datatype js_error =
    Error string
  | TypeError string
  | RangeError string
  | IndexOutOfRangeError
  | Thrown string

fun error_text :: "js_error \<Rightarrow> string" where
  "error_text (Error m) = m"
| "error_text (TypeError m) = m"
| "error_text (RangeError m) = m"
| "error_text IndexOutOfRangeError = ''Index out of range''"
| "error_text (Thrown v) = v"

definition startsWith :: "string \<Rightarrow> string \<Rightarrow> bool" where
  "startsWith s p = (take (length p) s = p)"

fun includes_str :: "string \<Rightarrow> string \<Rightarrow> bool" where
  "includes_str [] sub = (sub = [])"
| "includes_str (c # cs) sub = (startsWith (c # cs) sub \<or> includes_str cs sub)"

definition toLowerCase_char :: "char \<Rightarrow> char" where
  "toLowerCase_char c =
     (let n = (of_char c :: nat) in if 65 \<le> n \<and> n \<le> 90 then char_of (n + 32) else c)"

definition toLowerCase :: "string \<Rightarrow> string" where
  "toLowerCase s = map toLowerCase_char s"

definition toUpperCase_char :: "char \<Rightarrow> char" where
  "toUpperCase_char c =
     (let n = (of_char c :: nat) in if 97 \<le> n \<and> n \<le> 122 then char_of (n - 32) else c)"

definition toUpperCase :: "string \<Rightarrow> string" where
  "toUpperCase s = map toUpperCase_char s"

section \<open>The platform's URL constructor\<close>

text \<open>
  \<^verbatim>\<open>src/utils/extension.ts\<close> reads two fields of \<^verbatim>\<open>new URL(url)\<close>. The functions below
  take the constructor as a parameter \<open>U\<close> (\<open>Inl\<close> is the \<^verbatim>\<open>TypeError\<close> it throws on
  an invalid URL), so what is proved about them holds for every platform.
\<close>

record url =
  hostname :: string
  pathname :: string

type_synonym url_ctor = "string \<Rightarrow> js_error + url"

text \<open>
  \<open>URL_new\<close> is a concrete constructor after the WHATWG URL Standard, for the only
  inputs the code gives it: strings that start with \<^verbatim>\<open>chrome-extension://\<close>, a scheme
  that is not special. It removes tabs and newlines and trailing blanks, cuts the
  authority at the first \<^verbatim>\<open>/\<close>, \<^verbatim>\<open>?\<close> or \<^verbatim>\<open>#\<close>, drops the credentials, rejects a host with a
  forbidden host code point and a port that is not a number up to 65535, and normalises
  the path (dot segments, percent-encoding). Hosts written as IPv6 literals in brackets
  are not modelled: they are reported as invalid.
\<close>

definition is_c0_or_space :: "char \<Rightarrow> bool" where
  "is_c0_or_space c = ((of_char c :: nat) \<le> 32)"

definition is_tab_or_newline :: "char \<Rightarrow> bool" where
  "is_tab_or_newline c = ((of_char c :: nat) \<in> {9, 10, 13})"

definition url_preprocess :: "string \<Rightarrow> string" where
  "url_preprocess s =
     filter (\<lambda>c. \<not> is_tab_or_newline c)
       (rev (dropWhile is_c0_or_space (rev (dropWhile is_c0_or_space s))))"

definition ends_authority :: "char \<Rightarrow> bool" where
  "ends_authority c = (c \<in> set ''/?#'')"

definition ends_path :: "char \<Rightarrow> bool" where
  "ends_path c = (c \<in> set ''?#'')"

fun after_last_at :: "string \<Rightarrow> string" where
  "after_last_at [] = []"
| "after_last_at (c # cs) =
     (if CHR ''@'' \<in> set cs then after_last_at cs
      else if c = CHR ''@'' then cs else c # cs)"

text \<open>Host state: the buffer runs to the first colon outside brackets; the rest is the port.\<close>

fun host_scan :: "bool \<Rightarrow> string \<Rightarrow> string \<times> string option" where
  "host_scan inside [] = ([], None)"
| "host_scan inside (c # cs) =
     (if c = CHR '':'' \<and> \<not> inside then ([], Some cs)
      else (case host_scan (if c = CHR ''['' then True else if c = CHR '']'' then False else inside) cs
            of (h, p) \<Rightarrow> (c # h, p)))"

definition forbidden_host_code_point :: "char \<Rightarrow> bool" where
  "forbidden_host_code_point c =
     ((of_char c :: nat) \<in> {0, 9, 10, 13, 32} \<or> c \<in> set ''#/:<>?@[]^|'' \<or> (of_char c :: nat) = 92)"

definition hex_digit :: "nat \<Rightarrow> char" where
  "hex_digit n = ''0123456789ABCDEF'' ! (n mod 16)"

definition percent_byte :: "char \<Rightarrow> string" where
  "percent_byte c = [CHR ''%'', hex_digit ((of_char c :: nat) div 16), hex_digit (of_char c :: nat)]"

definition in_c0_control_set :: "char \<Rightarrow> bool" where
  "in_c0_control_set c = ((of_char c :: nat) \<le> 31 \<or> (of_char c :: nat) > 126)"

definition in_path_set :: "char \<Rightarrow> bool" where
  "in_path_set c = (in_c0_control_set c \<or> (of_char c :: nat) \<in> {32, 34, 35, 60, 62, 63, 94, 96, 123, 125})"

definition percent_encode :: "(char \<Rightarrow> bool) \<Rightarrow> string \<Rightarrow> string" where
  "percent_encode enc s = concat (map (\<lambda>c. if enc c then percent_byte c else [c]) s)"

definition is_digit :: "char \<Rightarrow> bool" where
  "is_digit c = (48 \<le> (of_char c :: nat) \<and> (of_char c :: nat) \<le> 57)"

definition digits_value :: "string \<Rightarrow> nat" where
  "digits_value ds = foldl (\<lambda>acc c. 10 * acc + ((of_char c :: nat) - 48)) 0 ds"

definition port_ok :: "string option \<Rightarrow> bool" where
  "port_ok p = (case p of None \<Rightarrow> True
                | Some ds \<Rightarrow> list_all is_digit ds \<and> digits_value ds \<le> 65535)"

fun split_on :: "char \<Rightarrow> string \<Rightarrow> string list" where
  "split_on d [] = [[]]"
| "split_on d (c # cs) =
     (case split_on d cs of
        [] \<Rightarrow> [[c]]
      | seg # segs \<Rightarrow> if c = d then [] # seg # segs else (c # seg) # segs)"

definition single_dot :: "string \<Rightarrow> bool" where
  "single_dot b = (toLowerCase b \<in> {''.'', ''%2e''})"

definition double_dot :: "string \<Rightarrow> bool" where
  "double_dot b = (toLowerCase b \<in> {''..'', ''.%2e'', ''%2e.'', ''%2e%2e''})"

text \<open>Path state: one step per segment; only the last segment is not followed by a slash.\<close>

fun path_segments :: "string list \<Rightarrow> string list \<Rightarrow> string list" where
  "path_segments path [] = path"
| "path_segments path (b # bs) =
     (let last_one = (bs = []) in
      path_segments
        (if double_dot b then butlast path @ (if last_one then [[]] else [])
         else if single_dot b then path @ (if last_one then [[]] else [])
         else path @ [b])
        bs)"

definition url_pathname :: "string \<Rightarrow> string" where
  "url_pathname after =
     (case takeWhile (\<lambda>c. \<not> ends_path c) after of
        [] \<Rightarrow> []
      | _ # p \<Rightarrow>
          concat (map (\<lambda>seg. CHR ''/'' # seg)
            (path_segments [] (map (percent_encode in_path_set) (split_on (CHR ''/'') p)))))"

definition ext_scheme :: string where
  "ext_scheme = ''chrome-extension://''"

definition invalid_url :: js_error where
  "invalid_url = TypeError ''Invalid URL''"

definition URL_new :: url_ctor where
  "URL_new input =
     (if \<not> startsWith input ext_scheme then Inl invalid_url
      else
        let rest = drop (length ext_scheme) (url_preprocess input);
            auth = takeWhile (\<lambda>c. \<not> ends_authority c) rest;
            after = dropWhile (\<lambda>c. \<not> ends_authority c) rest;
            hostport = (if CHR ''@'' \<in> set auth then after_last_at auth else auth)
        in if CHR ''@'' \<in> set auth \<and> hostport = [] then Inl invalid_url
           else (case host_scan False hostport of
             (host, port) \<Rightarrow>
               if port \<noteq> None \<and> host = [] then Inl invalid_url
               else if startsWith host ''['' then Inl invalid_url
               else if list_ex forbidden_host_code_point host then Inl invalid_url
               else if \<not> port_ok port then Inl invalid_url
               else Inr \<lparr>hostname = percent_encode in_c0_control_set host,
                         pathname = url_pathname after\<rparr>))"

section \<open>src/utils/extension.ts\<close>

definition extractExtensionId :: "url_ctor \<Rightarrow> string \<Rightarrow> js_error + string" where
  "extractExtensionId U url =
     (if \<not> startsWith url ''chrome-extension://''
      then Inl (Error ''Not a chrome-extension URL'')
      else (case U url of Inl e \<Rightarrow> Inl e | Inr urlObj \<Rightarrow> Inr (hostname urlObj)))"

definition getExtensionContextType :: "url_ctor \<Rightarrow> string \<Rightarrow> js_error + string" where
  "getExtensionContextType U url =
     (if \<not> startsWith url ''chrome-extension://'' then Inr ''web''
      else (case U url of
        Inl e \<Rightarrow> Inl e
      | Inr urlObj \<Rightarrow>
          let pathname = toLowerCase (pathname urlObj) in
          if includes_str pathname ''background'' \<or> includes_str pathname ''service_worker''
          then Inr ''service_worker''
          else if includes_str pathname ''options'' then Inr ''options''
          else if includes_str pathname ''popup'' then Inr ''popup''
          else if includes_str pathname ''sidebar'' \<or> includes_str pathname ''sidepanel''
          then Inr ''sidebar''
          else if includes_str pathname ''content_script'' then Inr ''content_script''
          else Inr ''extension_page''))"

text \<open>The \<^verbatim>\<open>try\<close> covers both extractions; the \<^verbatim>\<open>catch\<close> turns any throw into \<^verbatim>\<open>false\<close>.\<close>

definition isSameExtension :: "url_ctor \<Rightarrow> string \<Rightarrow> string \<Rightarrow> js_error + bool" where
  "isSameExtension U url1 url2 =
     (if \<not> startsWith url1 ''chrome-extension://'' \<or> \<not> startsWith url2 ''chrome-extension://''
      then Inr False
      else (case (case extractExtensionId U url1 of
                    Inl e \<Rightarrow> Inl e
                  | Inr id1 \<Rightarrow> (case extractExtensionId U url2 of
                                  Inl e \<Rightarrow> Inl e
                                | Inr id2 \<Rightarrow> Inr (id1 = id2)))
            of Inl e \<Rightarrow> Inr False
             | Inr b \<Rightarrow> Inr b))"

text \<open>The six answers for a URL of an extension; \<^verbatim>\<open>web\<close> is the seventh answer.\<close>

definition extension_context_types :: "string list" where
  "extension_context_types = [''service_worker'', ''options'', ''popup'', ''sidebar'',
                              ''content_script'', ''extension_page'']"

definition context_types :: "string list" where
  "context_types = ''web'' # extension_context_types"

section \<open>Programs that may throw: state and exception passing\<close>

text \<open>
  A handler reads and changes the Session Context and writes into the Response Builder.
  Both are fields of one record. The field \<open>calls\<close> is an observation log: every call
  the handler makes on the Session Context or on the browser driver is appended to it,
  so that the order of calls can be stated. It is not a part of the program's state and
  no operation reads it.
\<close>

type_synonym page = nat

record goto_options =
  waitUntil :: "string option"
  timeout :: nat

datatype call =
    GetSelectedPageIdx
  | NewPage
  | ClosePage "nat option"
  | SetSelectedPageIdx "nat option"
  | Goto page string goto_options
  | Evaluate page

record world =
  pages :: "page list"
  selected :: "nat option"
  response :: "string list"
  calls :: "call list"

type_synonym 'a prog = "world \<Rightarrow> (js_error + 'a) \<times> world"

definition ret :: "'a \<Rightarrow> 'a prog" where
  "ret x = (\<lambda>s. (Inr x, s))"

definition throw :: "js_error \<Rightarrow> 'a prog" where
  "throw e = (\<lambda>s. (Inl e, s))"

definition andThen :: "'a prog \<Rightarrow> ('a \<Rightarrow> 'b prog) \<Rightarrow> 'b prog" where
  "andThen m f = (\<lambda>s. case m s of (Inl e, s') \<Rightarrow> (Inl e, s') | (Inr x, s') \<Rightarrow> f x s')"

definition try_catch :: "'a prog \<Rightarrow> (js_error \<Rightarrow> 'a prog) \<Rightarrow> 'a prog" where
  "try_catch m h = (\<lambda>s. case m s of (Inl e, s') \<Rightarrow> h e s' | (Inr x, s') \<Rightarrow> (Inr x, s'))"

text \<open>
  \<^verbatim>\<open>try { m } finally { fin }\<close>: \<open>fin\<close> runs on every exit of \<open>m\<close>; when \<open>fin\<close> throws, its
  exception replaces the outcome of \<open>m\<close>.
\<close>

definition try_finally :: "'a prog \<Rightarrow> unit prog \<Rightarrow> 'a prog" where
  "try_finally m fin =
     (\<lambda>s. case m s of (r, s') \<Rightarrow>
        (case fin s' of (Inl e, s'') \<Rightarrow> (Inl e, s'') | (Inr u, s'') \<Rightarrow> (r, s'')))"

definition logged :: "call \<Rightarrow> world \<Rightarrow> world" where
  "logged c s = s\<lparr>calls := calls s @ [c]\<rparr>"

text \<open>
  Modelled from the spec: the Response Builder, missing from the sources, "accumulates
  text lines"; a response is "an ordered sequence of text lines". Appending never fails.
\<close>

definition appendResponseLine :: "string \<Rightarrow> unit prog" where
  "appendResponseLine l = (\<lambda>s. (Inr (), s\<lparr>response := response s @ [l]\<rparr>))"

section \<open>Session Context\<close>

text \<open>
  The Session Context (\<^verbatim>\<open>context.getSelectedPageIdx\<close>, \<^verbatim>\<open>newPage\<close>, \<^verbatim>\<open>closePage\<close>,
  \<^verbatim>\<open>setSelectedPageIdx\<close>) is not among the source files; only its callers are. Its four
  operations are modelled from section 4.3 of the spec. The selected index is a valid
  index into the page sequence or the sentinel "none" (\<open>None\<close>). The collectors attached
  to a page play no part in the two handlers and are left out. The spec names the error
  \<open>IndexOutOfRangeError\<close> but not its message; the model writes \<^verbatim>\<open>Index out of range\<close>.
\<close>

definition valid_idx :: "world \<Rightarrow> nat option \<Rightarrow> bool" where
  "valid_idx s i = (case i of None \<Rightarrow> False | Some n \<Rightarrow> n < length (pages s))"

text \<open>
  Modelled from the spec: \<^verbatim>\<open>getSelectedPageIndex()\<close>, missing from the sources, "returns
  current selection; never fails".
\<close>

definition getSelectedPageIdx :: "nat option prog" where
  "getSelectedPageIdx = (\<lambda>s. (Inr (selected s), logged GetSelectedPageIdx s))"

text \<open>
  Modelled from the spec: \<^verbatim>\<open>newPage()\<close>, missing from the sources, "opens a page, appends it
  to the sequence, makes it the new selection"; the prior selection is not restored. The
  argument is the driver's answer: the new page, or the exception of a browser that
  cannot open one. The handlers use the page that the call returns.
\<close>

definition newPage :: "js_error + page \<Rightarrow> page prog" where
  "newPage opened_page =
     (\<lambda>s. case opened_page of
        Inl e \<Rightarrow> (Inl e, logged NewPage s)
      | Inr p \<Rightarrow> (Inr p, logged NewPage
                         (s\<lparr>pages := pages s @ [p], selected := Some (length (pages s))\<rparr>)))"

text \<open>
  Modelled from the spec: \<^verbatim>\<open>setSelectedPageIndex(i)\<close>, missing from the sources, "fails with
  IndexOutOfRangeError if i is not a valid index into the current page sequence"; the
  sentinel is not a valid index.
\<close>

definition setSelectedPageIdx :: "nat option \<Rightarrow> unit prog" where
  "setSelectedPageIdx i =
     (\<lambda>s. if valid_idx s i then (Inr (), logged (SetSelectedPageIdx i) (s\<lparr>selected := i\<rparr>))
          else (Inl IndexOutOfRangeError, logged (SetSelectedPageIdx i) s))"

definition remove_at :: "nat \<Rightarrow> 'a list \<Rightarrow> 'a list" where
  "remove_at n xs = take n xs @ drop (Suc n) xs"

text \<open>
  Modelled from the spec: \<^verbatim>\<open>closePage(i)\<close>, missing from the sources, "closes and removes
  page i; re-numbers remaining pages (stable relative order); resets selection to index 0
  if any pages remain, else to none". The spec names no failure of \<open>closePage\<close>; on an
  index that names no page the model lets it fail like \<^verbatim>\<open>getPage(i)\<close>.
\<close>

definition closePage :: "nat option \<Rightarrow> unit prog" where
  "closePage i =
     (\<lambda>s. case i of
        None \<Rightarrow> (Inl IndexOutOfRangeError, logged (ClosePage i) s)
      | Some n \<Rightarrow>
          if n < length (pages s)
          then (Inr (), logged (ClosePage i)
                 (s\<lparr>pages := remove_at n (pages s),
                    selected := (if remove_at n (pages s) = [] then None else Some 0)\<rparr>))
          else (Inl IndexOutOfRangeError, logged (ClosePage i) s))"

text \<open>
  The invariant of the spec's data model: the selection is a valid index, or "none" when
  no page is open.
\<close>

definition session_inv :: "world \<Rightarrow> bool" where
  "session_inv s =
     (case selected s of None \<Rightarrow> pages s = [] | Some n \<Rightarrow> n < length (pages s))"

section \<open>The extension log contract and the browser driver\<close>

record ExtensionLog =
  log_ctx :: string
  log_level :: string
  log_msg :: "string list"
  log_sid :: string
  log_t :: string

text \<open>\<^verbatim>\<open>new Date(s).getTime()\<close>: milliseconds since the epoch, or \<^verbatim>\<open>NaN\<close> for an invalid date.\<close>

datatype time_value = NaN | Time int

text \<open>
  What the handler cannot decide is an input of the model: what the driver answers to
  \<^verbatim>\<open>browser.newPage\<close>, to each \<^verbatim>\<open>page.goto\<close> (\<open>None\<close>: it resolves; \<open>Some e\<close>: it throws \<open>e\<close>)
  and to \<^verbatim>\<open>page.evaluate\<close> (\<open>Some e\<close>: the call itself throws), what
  \<^verbatim>\<open>chrome.storage.local.get\<close> does inside the page (it throws, or returns the value stored
  under \<^verbatim>\<open>__dev_logs\<close>, if any), and the platform's \<^verbatim>\<open>Date\<close>.
\<close>

record env =
  open_page :: "js_error + page"
  goto_result :: "string \<Rightarrow> goto_options \<Rightarrow> js_error option"
  evaluate_fault :: "js_error option"
  storage_get :: "js_error + ExtensionLog list option"
  getTime :: "string \<Rightarrow> time_value"
  toISOString :: "int \<Rightarrow> string"

definition goto :: "env \<Rightarrow> page \<Rightarrow> string \<Rightarrow> goto_options \<Rightarrow> unit prog" where
  "goto E page url opts =
     (\<lambda>s. case goto_result E url opts of
        None \<Rightarrow> (Inr (), logged (Goto page url opts) s)
      | Some e \<Rightarrow> (Inl e, logged (Goto page url opts) s))"

text \<open>
  \<open>evaluate\<close> runs an in-page script, given as its outcome \<open>script\<close>: \<open>Inl\<close> when the script
  throws, which \<^verbatim>\<open>page.evaluate\<close> throws on.
\<close>

definition evaluate :: "env \<Rightarrow> page \<Rightarrow> js_error + 'a \<Rightarrow> 'a prog" where
  "evaluate E page script =
     (\<lambda>s. case evaluate_fault E of
        Some e \<Rightarrow> (Inl e, logged (Evaluate page) s)
      | None \<Rightarrow> (script, logged (Evaluate page) s))"

section \<open>src/tools/extension.ts: get_extension_logs\<close>

text \<open>
  The request parameters after schema validation. Numbers are modelled on their integer
  values. \<open>since\<close> and \<open>sessionId\<close> are optional; the other fields have defaults.
\<close>

record params =
  extensionId :: string
  contextType :: string
  logLevel :: string
  maxEntries :: int
  since :: "int option"
  sessionId :: "string option"

subsection \<open>The script evaluated in the page\<close>

text \<open>\<^verbatim>\<open>new Date(log.t).getTime() >= since\<close>; a comparison with \<^verbatim>\<open>NaN\<close> is false.\<close>

definition time_ge :: "time_value \<Rightarrow> int \<Rightarrow> bool" where
  "time_ge v T = (case v of NaN \<Rightarrow> False | Time ms \<Rightarrow> T \<le> ms)"

text \<open>
  The comparator \<^verbatim>\<open>new Date(b.t).getTime() - new Date(a.t).getTime()\<close>. A comparator
  result \<^verbatim>\<open>NaN\<close> counts as 0 in \<^verbatim>\<open>Array.prototype.sort\<close>.
\<close>

definition compare_logs :: "(string \<Rightarrow> time_value) \<Rightarrow> ExtensionLog \<Rightarrow> ExtensionLog \<Rightarrow> int" where
  "compare_logs D a b =
     (case D (log_t b) of
        NaN \<Rightarrow> 0
      | Time tb \<Rightarrow> (case D (log_t a) of NaN \<Rightarrow> 0 | Time ta \<Rightarrow> tb - ta))"

text \<open>
  \<^verbatim>\<open>Array.prototype.sort\<close> is a stable sort. With a consistent comparator (here: when no
  timestamp is invalid) its result is fixed by the standard and is the one computed
  here; otherwise the standard leaves the order to the implementation, and this
  insertion sort is one such implementation.
\<close>

fun sort_insert :: "('a \<Rightarrow> 'a \<Rightarrow> int) \<Rightarrow> 'a \<Rightarrow> 'a list \<Rightarrow> 'a list" where
  "sort_insert cmp x [] = [x]"
| "sort_insert cmp x (y # ys) =
     (if cmp x y \<le> 0 then x # y # ys else y # sort_insert cmp x ys)"

fun js_sort :: "('a \<Rightarrow> 'a \<Rightarrow> int) \<Rightarrow> 'a list \<Rightarrow> 'a list" where
  "js_sort cmp [] = []"
| "js_sort cmp (x # xs) = sort_insert cmp x (js_sort cmp xs)"

text \<open>\<^verbatim>\<open>xs.slice(0, end)\<close>: a negative \<open>end\<close> counts from the end of the array.\<close>

definition slice0 :: "int \<Rightarrow> 'a list \<Rightarrow> 'a list" where
  "slice0 end xs =
     (if end < 0 then take (nat (int (length xs) + end)) xs else take (nat end) xs)"

text \<open>
  The four filters, in the order of the source. \<^verbatim>\<open>if (since)\<close> is false for an absent
  \<open>since\<close> and for 0; \<^verbatim>\<open>if (sessionId)\<close> is false for an absent and for an empty string.
\<close>

definition filter_since :: "(string \<Rightarrow> time_value) \<Rightarrow> int option \<Rightarrow> ExtensionLog list \<Rightarrow> ExtensionLog list" where
  "filter_since D since_opt filteredLogs =
     (case since_opt of
        None \<Rightarrow> filteredLogs
      | Some T \<Rightarrow> if T \<noteq> 0 then filter (\<lambda>log. time_ge (D (log_t log)) T) filteredLogs
                  else filteredLogs)"

definition filter_session :: "string option \<Rightarrow> ExtensionLog list \<Rightarrow> ExtensionLog list" where
  "filter_session sid_opt filteredLogs =
     (case sid_opt of
        None \<Rightarrow> filteredLogs
      | Some session_id \<Rightarrow>
          if session_id \<noteq> [] then filter (\<lambda>log. log_sid log = session_id) filteredLogs
          else filteredLogs)"

definition context_matches :: "string \<Rightarrow> ExtensionLog \<Rightarrow> bool" where
  "context_matches wanted log =
     (log_ctx log = wanted \<or> (wanted = ''background'' \<and> log_ctx log = ''service_worker''))"

definition filter_context :: "string \<Rightarrow> ExtensionLog list \<Rightarrow> ExtensionLog list" where
  "filter_context wanted filteredLogs =
     (if wanted \<noteq> ''all'' then filter (context_matches wanted) filteredLogs
      else filteredLogs)"

definition filter_level :: "string \<Rightarrow> ExtensionLog list \<Rightarrow> ExtensionLog list" where
  "filter_level wanted filteredLogs =
     (if wanted \<noteq> ''all'' then filter (\<lambda>log. log_level log = wanted) filteredLogs
      else filteredLogs)"

definition filtered_logs :: "(string \<Rightarrow> time_value) \<Rightarrow> params \<Rightarrow> ExtensionLog list \<Rightarrow> ExtensionLog list" where
  "filtered_logs D p allLogs =
     filter_level (logLevel p)
       (filter_context (contextType p)
         (filter_session (sessionId p)
           (filter_since D (since p) allLogs)))"

text \<open>\<^verbatim>\<open>result.__dev_logs || []\<close>: an absent key reads as the empty list.\<close>

definition stored_logs :: "ExtensionLog list option \<Rightarrow> ExtensionLog list" where
  "stored_logs result = (case result of None \<Rightarrow> [] | Some stored \<Rightarrow> stored)"

text \<open>The body of the script's \<^verbatim>\<open>try\<close>: read the storage, filter, sort, slice.\<close>

definition dev_logs_try :: "(string \<Rightarrow> time_value) \<Rightarrow> params \<Rightarrow> js_error + ExtensionLog list option \<Rightarrow> js_error + ExtensionLog list" where
  "dev_logs_try D p storage =
     (case storage of
        Inl e \<Rightarrow> Inl e
      | Inr result \<Rightarrow>
          let allLogs = stored_logs result
          in Inr (slice0 (maxEntries p) (js_sort (compare_logs D) (filtered_logs D p allLogs))))"

datatype logs_result = Logs "ExtensionLog list" | ErrorObject string

definition dev_logs_script :: "(string \<Rightarrow> time_value) \<Rightarrow> params \<Rightarrow> js_error + ExtensionLog list option \<Rightarrow> js_error + logs_result" where
  "dev_logs_script D p storage =
     (case dev_logs_try D p storage of
        Inr logs \<Rightarrow> Inr (Logs logs)
      | Inl error \<Rightarrow>
          Inr (ErrorObject (''Failed to access extension storage: '' @ error_text error)))"

subsection \<open>Rendering\<close>

text \<open>A number in a template literal: its decimal digits.\<close>

definition decimal_digit :: "nat \<Rightarrow> char" where
  "decimal_digit n = ''0123456789'' ! (n mod 10)"

fun show_nat :: "nat \<Rightarrow> string" where
  "show_nat n =
     (if n < 10 then [decimal_digit n] else show_nat (n div 10) @ [decimal_digit (n mod 10)])"

declare show_nat.simps [simp del]

definition padEnd :: "nat \<Rightarrow> string \<Rightarrow> string" where
  "padEnd n s = s @ replicate (n - length s) (CHR '' '')"

definition repeat :: "string \<Rightarrow> nat \<Rightarrow> string" where
  "repeat s n = concat (replicate n s)"

fun join :: "string \<Rightarrow> string list \<Rightarrow> string" where
  "join sep [] = []"
| "join sep [x] = x"
| "join sep (x # y # ys) = x @ sep @ join sep (y # ys)"

text \<open>The rule character, as its bytes stand in the source file.\<close>

definition rule_char :: string where
  "rule_char = [CHR 0xE2, CHR 0x80, CHR 0x9A, CHR 0xC3, CHR 0xAE, CHR 0xC3, CHR 0x84]"

text \<open>
  \<^verbatim>\<open>logsBySession\<close> is a \<^verbatim>\<open>Map\<close>: it lists its keys in the order of their first insertion.
\<close>

fun add_to_session :: "ExtensionLog \<Rightarrow> (string \<times> ExtensionLog list) list \<Rightarrow> (string \<times> ExtensionLog list) list" where
  "add_to_session log [] = [(log_sid log, [log])]"
| "add_to_session log ((k, v) # m) =
     (if k = log_sid log then (k, v @ [log]) # m else (k, v) # add_to_session log m)"

definition logsBySession :: "ExtensionLog list \<Rightarrow> (string \<times> ExtensionLog list) list" where
  "logsBySession logs = foldl (\<lambda>m log. add_to_session log m) [] logs"

text \<open>\<^verbatim>\<open>new Date(log.t).toISOString()\<close> throws a \<^verbatim>\<open>RangeError\<close> on an invalid date.\<close>

definition format_log :: "env \<Rightarrow> ExtensionLog \<Rightarrow> js_error + string" where
  "format_log E log =
     (case getTime E (log_t log) of
        NaN \<Rightarrow> Inl (RangeError ''Invalid time value'')
      | Time ms \<Rightarrow>
          Inr (toISOString E ms @ '' ['' @ padEnd 5 (toUpperCase (log_level log)) @ ''] ''
               @ padEnd 10 (log_ctx log) @ '' '' @ join '' '' (log_msg log)))"

fun print_logs :: "env \<Rightarrow> ExtensionLog list \<Rightarrow> unit prog" where
  "print_logs E [] = ret ()"
| "print_logs E (log # sessionLogs) =
     (case format_log E log of
        Inl e \<Rightarrow> throw e
      | Inr line \<Rightarrow> andThen (appendResponseLine line) (\<lambda>_. print_logs E sessionLogs))"

fun print_sessions :: "env \<Rightarrow> (string \<times> ExtensionLog list) list \<Rightarrow> unit prog" where
  "print_sessions E [] = ret ()"
| "print_sessions E ((session_id, sessionLogs) # m) =
     andThen (appendResponseLine (''Session: '' @ session_id)) (\<lambda>_.
     andThen (appendResponseLine (repeat rule_char 50)) (\<lambda>_.
     andThen (print_logs E sessionLogs) (\<lambda>_.
     andThen (appendResponseLine []) (\<lambda>_.
     print_sessions E m))))"

definition no_logs_lines :: "string list" where
  "no_logs_lines =
     [''No logs found matching the specified criteria.'',
      [],
      ''This could mean:'',
      ''- The extension does not implement a dev log sink'',
      ''- No logs have been generated yet'',
      ''- The filter criteria are too restrictive'']"

fun append_lines :: "string list \<Rightarrow> unit prog" where
  "append_lines [] = ret ()"
| "append_lines (l # ls) = andThen (appendResponseLine l) (\<lambda>_. append_lines ls)"

definition report_logs :: "env \<Rightarrow> params \<Rightarrow> logs_result \<Rightarrow> unit prog" where
  "report_logs E p logs =
     (case logs of
        ErrorObject m \<Rightarrow> appendResponseLine (''Error: '' @ m)
      | Logs ls \<Rightarrow>
          if ls = [] then append_lines no_logs_lines
          else
            andThen (appendResponseLine
              (''Found '' @ show_nat (length ls) @ '' log entries for extension '' @ extensionId p)) (\<lambda>_.
            andThen (appendResponseLine []) (\<lambda>_.
            print_sessions E (logsBySession ls))))"

subsection \<open>The handler\<close>

definition idle_10s :: goto_options where
  "idle_10s = \<lparr>waitUntil = Some ''networkidle0'', timeout = 10000\<rparr>"

definition options_url :: "string \<Rightarrow> string" where
  "options_url extension_id = ''chrome-extension://'' @ extension_id @ ''/options.html''"

definition root_url :: "string \<Rightarrow> string" where
  "root_url extension_id = ''chrome-extension://'' @ extension_id @ ''/''"

definition logs_navigate :: "env \<Rightarrow> params \<Rightarrow> page \<Rightarrow> unit prog" where
  "logs_navigate E p page =
     try_catch (goto E page (options_url (extensionId p)) idle_10s)
       (\<lambda>_. goto E page (root_url (extensionId p)) idle_10s)"

text \<open>The inner \<^verbatim>\<open>try\<close> block; both \<^verbatim>\<open>return\<close> statements leave it normally.\<close>

definition logs_with_page :: "env \<Rightarrow> params \<Rightarrow> page \<Rightarrow> unit prog" where
  "logs_with_page E p page =
     andThen (logs_navigate E p page) (\<lambda>_.
     andThen (evaluate E page (dev_logs_script (getTime E) p (storage_get E))) (\<lambda>logs.
     report_logs E p logs))"

text \<open>The \<^verbatim>\<open>finally\<close> block of both handlers.\<close>

definition close_and_restore :: "nat option \<Rightarrow> nat option \<Rightarrow> unit prog" where
  "close_and_restore newPageIdx originalPageIdx =
     andThen (closePage newPageIdx) (\<lambda>_. setSelectedPageIdx originalPageIdx)"

text \<open>The outer \<^verbatim>\<open>try\<close> block.\<close>

definition get_extension_logs_try :: "env \<Rightarrow> params \<Rightarrow> unit prog" where
  "get_extension_logs_try E p =
     andThen getSelectedPageIdx (\<lambda>originalPageIdx.
     andThen (newPage (open_page E)) (\<lambda>page.
     andThen getSelectedPageIdx (\<lambda>newPageIdx.
     try_finally (logs_with_page E p page) (close_and_restore newPageIdx originalPageIdx))))"

definition get_extension_logs :: "env \<Rightarrow> params \<Rightarrow> unit prog" where
  "get_extension_logs E p =
     try_catch (get_extension_logs_try E p)
       (\<lambda>error. appendResponseLine (''Failed to retrieve extension logs: '' @ error_text error))"

section \<open>src/tools/extension.ts: test_extension_access\<close>

text \<open>The marks and signs of the report, as their bytes stand in the source file.\<close>

definition mark_pass :: string where
  "mark_pass = [CHR 0xE2, CHR 0x80, CHR 0x9A, CHR 0xC3, CHR 0xBA, CHR 0xC3, CHR 0xAC]"

definition mark_fail :: string where
  "mark_fail = [CHR 0xE2, CHR 0x80, CHR 0x9A, CHR 0xC3, CHR 0xBA, CHR 0xC3, CHR 0xB3]"

definition sign_working :: string where
  "sign_working = [CHR 0xEF, CHR 0xA3, CHR 0xBF, CHR 0xC3, CHR 0xBC, CHR 0xC3, CHR 0xA9,
                   CHR 0xC3, CHR 0xA2]"

definition sign_partial :: string where
  "sign_partial = [CHR 0xE2, CHR 0x80, CHR 0x9A, CHR 0xC3, CHR 0xB6, CHR 0xE2, CHR 0x80,
                   CHR 0xA0, CHR 0xC3, CHR 0x94, CHR 0xE2, CHR 0x88, CHR 0x8F, CHR 0xC3,
                   CHR 0xA8]"

definition sign_broken :: string where
  "sign_broken = [CHR 0xE2, CHR 0x80, CHR 0x9A, CHR 0xC3, CHR 0xB9, CHR 0xC3, CHR 0xA5]"

definition idle_5s :: goto_options where
  "idle_5s = \<lparr>waitUntil = Some ''networkidle0'', timeout = 5000\<rparr>"

definition plain_5s :: goto_options where
  "plain_5s = \<lparr>waitUntil = None, timeout = 5000\<rparr>"

definition manifest_url :: "string \<Rightarrow> string" where
  "manifest_url extension_id = ''chrome-extension://'' @ extension_id @ ''/manifest.json''"

text \<open>The script of the storage test: it returns \<^verbatim>\<open>{success, message}\<close> and never throws.\<close>

definition storage_test_script :: "js_error + ExtensionLog list option \<Rightarrow> js_error + bool \<times> string" where
  "storage_test_script storage =
     (case storage of
        Inr v \<Rightarrow> Inr (True, ''Storage API accessible'')
      | Inl error \<Rightarrow> Inr (False, ''Storage API error: '' @ error_text error))"

text \<open>
  The inner \<^verbatim>\<open>try\<close> block: four tests, each in a \<^verbatim>\<open>try\<close>/\<^verbatim>\<open>catch\<close> of its own, each adding
  one line to \<^verbatim>\<open>testResults\<close>.
\<close>

definition access_tests :: "env \<Rightarrow> string \<Rightarrow> page \<Rightarrow> string list prog" where
  "access_tests E extension_id page =
     andThen
       (try_catch
          (andThen (goto E page (options_url extension_id) idle_5s)
             (\<lambda>_. ret ([] @ [mark_pass @ '' Options page accessible''])))
          (\<lambda>_. ret ([] @ [mark_fail @ '' Options page not accessible''])))
     (\<lambda>testResults1.
     andThen
       (try_catch
          (andThen (goto E page (manifest_url extension_id) idle_5s)
             (\<lambda>_. ret (testResults1 @ [mark_pass @ '' Manifest accessible''])))
          (\<lambda>_. ret (testResults1 @ [mark_fail @ '' Manifest not accessible''])))
     (\<lambda>testResults2.
     andThen
       (try_catch
          (andThen (goto E page (root_url extension_id) idle_5s)
             (\<lambda>_. ret (testResults2 @ [mark_pass @ '' Extension root accessible''])))
          (\<lambda>_. ret (testResults2 @ [mark_fail @ '' Extension root not accessible''])))
     (\<lambda>testResults3.
       try_catch
         (andThen (goto E page (root_url extension_id) plain_5s) (\<lambda>_.
          andThen (evaluate E page (storage_test_script (storage_get E))) (\<lambda>storageTest.
            if fst storageTest
            then ret (testResults3 @ [mark_pass @ '' Storage API accessible''])
            else ret (testResults3 @ [mark_fail @ '' Storage API issue: '' @ snd storageTest]))))
         (\<lambda>_. ret (testResults3 @ [mark_fail @ '' Could not test storage API''])))))"

definition display_results :: "string list \<Rightarrow> unit prog" where
  "display_results testResults =
     andThen (appendResponseLine ''Extension Test Results:'') (\<lambda>_.
     andThen (appendResponseLine (repeat rule_char 30)) (\<lambda>_.
     andThen (append_lines testResults) (\<lambda>_.
     let successCount = length (filter (\<lambda>r. startsWith r mark_pass) testResults);
         totalTests = length testResults
     in
     andThen (appendResponseLine []) (\<lambda>_.
     andThen (appendResponseLine
       (''Summary: '' @ show_nat successCount @ ''/'' @ show_nat totalTests @ '' tests passed'')) (\<lambda>_.
     if successCount = totalTests
     then appendResponseLine (sign_working @ '' Extension appears to be working correctly!'')
     else if successCount > 0
     then appendResponseLine
            (sign_partial @ ''  Extension has some issues but is partially functional'')
     else appendResponseLine (sign_broken @ '' Extension appears to have significant issues''))))))"

definition test_extension_access_try :: "env \<Rightarrow> string \<Rightarrow> unit prog" where
  "test_extension_access_try E extension_id =
     andThen getSelectedPageIdx (\<lambda>originalPageIdx.
     andThen (newPage (open_page E)) (\<lambda>page.
     andThen getSelectedPageIdx (\<lambda>newPageIdx.
     andThen (try_finally (access_tests E extension_id page)
                (close_and_restore newPageIdx originalPageIdx)) (\<lambda>testResults.
     display_results testResults))))"

definition test_extension_access :: "env \<Rightarrow> string \<Rightarrow> unit prog" where
  "test_extension_access E extension_id =
     andThen (appendResponseLine (''Testing extension: '' @ extension_id)) (\<lambda>_.
     andThen (appendResponseLine []) (\<lambda>_.
     try_catch (test_extension_access_try E extension_id)
       (\<lambda>error. appendResponseLine (''Failed to test extension: '' @ error_text error))))"

section \<open>Example inputs\<close>

text \<open>
  A \<^verbatim>\<open>Date\<close> given by a table: the timestamps used in the examples with the milliseconds
  the platform's \<^verbatim>\<open>Date\<close> gives for them; any other string is an invalid date.
\<close>

definition example_dates :: "(string \<times> int) list" where
  "example_dates =
     [(''2025-01-01T00:00:00.000Z'', 1735689600000),
      (''2025-01-01T00:00:01.000Z'', 1735689601000),
      (''2025-01-01T00:00:02.000Z'', 1735689602000),
      (''1969-12-31T23:59:59.000Z'', - 1000)]"

definition example_getTime :: "string \<Rightarrow> time_value" where
  "example_getTime s = (case map_of example_dates s of None \<Rightarrow> NaN | Some ms \<Rightarrow> Time ms)"

definition example_toISOString :: "int \<Rightarrow> string" where
  "example_toISOString ms =
     (case map_of (map (\<lambda>(s, v). (v, s)) example_dates) ms of None \<Rightarrow> [] | Some s \<Rightarrow> s)"

definition example_log :: "string \<Rightarrow> string \<Rightarrow> string \<Rightarrow> ExtensionLog" where
  "example_log c l ts = \<lparr>log_ctx = c, log_level = l, log_msg = [''started''], log_sid = ''s1'', log_t = ts\<rparr>"

definition example_params :: params where
  "example_params =
     \<lparr>extensionId = ''abcdefghijklmnopabcdefghijklmnop'', contextType = ''all'',
      logLevel = ''all'', maxEntries = 100, since = None, sessionId = None\<rparr>"

definition example_env :: env where
  "example_env =
     \<lparr>open_page = Inr 7, goto_result = (\<lambda>url opts. None), evaluate_fault = None,
      storage_get = Inr None, getTime = example_getTime, toISOString = example_toISOString\<rparr>"

definition example_world :: world where
  "example_world = \<lparr>pages = [1, 2], selected = Some 1, response = [], calls = []\<rparr>"

section \<open>Predicates used in the proofs\<close>

text \<open>A program that leaves the page sequence and the selection as they are.\<close>

definition keeps_session :: "'a prog \<Rightarrow> bool" where
  "keeps_session m = (\<forall>s. pages (snd (m s)) = pages s \<and> selected (snd (m s)) = selected s)"

text \<open>
  A program that only appends lines to the response, the same lines and with the same
  outcome in whatever state it starts.
\<close>

definition writes :: "'a prog \<Rightarrow> bool" where
  "writes m = (\<exists>r ls. \<forall>s. m s = (r, s\<lparr>response := response s @ ls\<rparr>))"

text \<open>The state after the two lines that \<open>test_extension_access\<close> writes before its \<^verbatim>\<open>try\<close>.\<close>

definition header :: "string \<Rightarrow> world \<Rightarrow> world" where
  "header x s = s\<lparr>response := response s @ [''Testing extension: '' @ x, []]\<rparr>"

text \<open>The extension page was reached: by the options page or, failing that, by the root.\<close>

definition navigated :: "env \<Rightarrow> params \<Rightarrow> bool" where
  "navigated E p =
     (goto_result E (options_url (extensionId p)) idle_10s = None \<or>
      goto_result E (root_url (extensionId p)) idle_10s = None)"

text \<open>An environment in which the navigation to the options page fails.\<close>

definition options_fail :: "env \<Rightarrow> string \<Rightarrow> env" where
  "options_fail E extension_id =
     E\<lparr>goto_result := (\<lambda>u opts. if u = options_url extension_id
                                 then Some (Error ''Navigation timeout'')
                                 else goto_result E u opts)\<rparr>"

text \<open>An entry with a valid timestamp, and the order "not older than" on such entries.\<close>

definition valid_time :: "(string \<Rightarrow> time_value) \<Rightarrow> ExtensionLog \<Rightarrow> bool" where
  "valid_time D e = (D (log_t e) \<noteq> NaN)"

definition newer_first :: "(string \<Rightarrow> time_value) \<Rightarrow> ExtensionLog \<Rightarrow> ExtensionLog \<Rightarrow> bool" where
  "newer_first D a b =
     (case D (log_t a) of
        NaN \<Rightarrow> False
      | Time ta \<Rightarrow> (case D (log_t b) of NaN \<Rightarrow> False | Time tb \<Rightarrow> tb \<le> ta))"

text \<open>The state in which the inner \<^verbatim>\<open>try\<close> block starts, once the page \<open>pg\<close> is open.\<close>

definition opened :: "page \<Rightarrow> world \<Rightarrow> world" where
  "opened pg s =
     s\<lparr>pages := pages s @ [pg], selected := Some (length (pages s)),
       calls := calls s @ [GetSelectedPageIdx, NewPage, GetSelectedPageIdx]\<rparr>"

text \<open>The environment in which the navigation to the options page succeeds.\<close>

definition primary_ok :: "env \<Rightarrow> params \<Rightarrow> env" where
  "primary_ok E p =
     E\<lparr>goto_result := (\<lambda>u opts. if u = options_url (extensionId p) \<and> opts = idle_10s then None
                                 else goto_result E u opts)\<rparr>"

section \<open>Properties of the script evaluated in the page\<close>

lemma dev_logs_script_returns:
  "dev_logs_script D p (Inr stored) =
     Inr (Logs (slice0 (maxEntries p) (js_sort (compare_logs D) (filtered_logs D p (stored_logs stored)))))"
  by (simp add: dev_logs_script_def dev_logs_try_def)

lemma mset_sort_insert: "mset (sort_insert cmp x ys) = add_mset x (mset ys)"
  by (induction ys) simp_all

lemma mset_js_sort: "mset (js_sort cmp xs) = mset xs"
  by (induction xs) (simp_all add: mset_sort_insert)

lemma set_js_sort: "set (js_sort cmp xs) = set xs"
  by (metis mset_js_sort set_mset_mset)

lemma length_js_sort: "length (js_sort cmp xs) = length xs"
  by (metis mset_js_sort size_mset)

lemma set_slice0: "set (slice0 n xs) \<subseteq> set xs"
  by (auto simp: slice0_def dest: in_set_takeD)

lemma slice0_all: "int (length xs) \<le> n \<Longrightarrow> slice0 n xs = xs"
  by (simp add: slice0_def)

lemma length_slice0: "0 \<le> n \<Longrightarrow> int (length (slice0 n xs)) \<le> n"
  by (simp add: slice0_def)

lemma filter_level_context:
  "filter_level l (filter_context c xs) = filter_context c (filter_level l xs)"
  by (auto simp: filter_level_def filter_context_def intro: filter_cong)

lemma filtered_logs_context:
  "c \<noteq> ''all'' \<Longrightarrow> contextType p = c \<Longrightarrow>
   filtered_logs D p xs = filter (context_matches c) (filtered_logs D (p\<lparr>contextType := ''all''\<rparr>) xs)"
  by (simp add: filtered_logs_def filter_level_context) (simp add: filter_context_def)

lemma context_matches_background:
  "context_matches ''background'' = (\<lambda>e. log_ctx e = ''background'' \<or> log_ctx e = ''service_worker'')"
  by (simp add: context_matches_def fun_eq_iff)

lemma context_matches_other:
  "c \<noteq> ''background'' \<Longrightarrow> context_matches c = (\<lambda>e. log_ctx e = c)"
  by (simp add: context_matches_def fun_eq_iff)

lemma length_filtered_logs: "length (filtered_logs D p xs) \<le> length xs"
proof -
  have a: "length (filter_since D (since p) xs) \<le> length xs"
    by (simp add: filter_since_def split: option.split)
  have b: "\<And>ys. length (filter_session (sessionId p) ys) \<le> length ys"
    by (simp add: filter_session_def split: option.split)
  have c: "\<And>ys. length (filter_context (contextType p) ys) \<le> length ys"
    by (simp add: filter_context_def)
  have d: "\<And>ys. length (filter_level (logLevel p) ys) \<le> length ys"
    by (simp add: filter_level_def)
  show ?thesis unfolding filtered_logs_def
    using a b c d by (meson order_trans)
qed

lemma newer_first_trans: "newer_first D a b \<Longrightarrow> newer_first D b c \<Longrightarrow> newer_first D a c"
  by (auto simp: newer_first_def split: time_value.splits)

lemma compare_logs_le:
  "valid_time D a \<Longrightarrow> valid_time D b \<Longrightarrow> compare_logs D a b \<le> 0 \<longleftrightarrow> newer_first D a b"
  by (auto simp: compare_logs_def newer_first_def valid_time_def split: time_value.splits)

lemma newer_first_total:
  "valid_time D a \<Longrightarrow> valid_time D b \<Longrightarrow> newer_first D a b \<or> newer_first D b a"
  by (auto simp: newer_first_def valid_time_def split: time_value.splits)

lemma set_sort_insert: "set (sort_insert cmp x ys) = insert x (set ys)"
  by (metis mset_sort_insert set_mset_add_mset_insert set_mset_mset)

lemma sorted_sort_insert:
  assumes "valid_time D x" and "\<forall>y \<in> set ys. valid_time D y"
      and "sorted_wrt (newer_first D) ys"
  shows "sorted_wrt (newer_first D) (sort_insert (compare_logs D) x ys)"
  using assms
proof (induction ys)
  case Nil
  then show ?case by simp
next
  case (Cons y ys)
  show ?case
  proof (cases "compare_logs D x y \<le> 0")
    case True
    with Cons.prems have xy: "newer_first D x y" by (simp add: compare_logs_le)
    with Cons.prems have "\<forall>z \<in> set ys. newer_first D x z"
      by (auto intro: newer_first_trans)
    with True xy Cons.prems show ?thesis by simp
  next
    case False
    with Cons.prems have "\<not> newer_first D x y" by (simp add: compare_logs_le)
    with Cons.prems have yx: "newer_first D y x"
      using newer_first_total [of D x y] by auto
    from Cons.IH Cons.prems
    have "sorted_wrt (newer_first D) (sort_insert (compare_logs D) x ys)" by simp
    with False yx Cons.prems show ?thesis by (auto simp: set_sort_insert)
  qed
qed

lemma sorted_js_sort:
  "\<forall>x \<in> set xs. valid_time D x \<Longrightarrow> sorted_wrt (newer_first D) (js_sort (compare_logs D) xs)"
  by (induction xs) (simp_all add: sorted_sort_insert set_js_sort)

lemma sorted_slice0: "sorted_wrt R xs \<Longrightarrow> sorted_wrt R (slice0 n xs)"
  by (simp add: slice0_def)

lemma set_filtered_logs_since:
  "since p = Some T \<Longrightarrow> T \<noteq> 0 \<Longrightarrow>
   set (filtered_logs D p xs) \<subseteq> {e \<in> set xs. time_ge (D (log_t e)) T}"
  by (auto simp: filtered_logs_def filter_level_def filter_context_def filter_session_def
        filter_since_def split: option.splits if_splits)

lemma since_bound_holds_when_nonzero:
  assumes "since p = Some T" and "T \<noteq> 0"
  shows "\<exists>out. dev_logs_script D p (Inr stored) = Inr (Logs out) \<and>
           (\<forall>e \<in> set out. time_ge (D (log_t e)) T) \<and>
           (0 \<le> maxEntries p \<longrightarrow> int (length out) \<le> maxEntries p) \<and>
           sorted_wrt (newer_first D) out"
proof -
  let ?f = "filtered_logs D p (stored_logs stored)"
  let ?out = "slice0 (maxEntries p) (js_sort (compare_logs D) ?f)"
  have ret: "dev_logs_script D p (Inr stored) = Inr (Logs ?out)"
    by (simp add: dev_logs_script_returns)
  from set_filtered_logs_since [OF assms]
  have ge: "\<forall>e \<in> set ?f. time_ge (D (log_t e)) T" by blast
  then have valid: "\<forall>e \<in> set ?f. valid_time D e"
    by (auto simp: time_ge_def valid_time_def split: time_value.splits)
  have sub: "set ?out \<subseteq> set ?f"
    using set_slice0 [of "maxEntries p"] by (metis set_js_sort)
  from valid have "sorted_wrt (newer_first D) ?out"
    by (simp add: sorted_js_sort sorted_slice0)
  with ret ge sub length_slice0 [of "maxEntries p"] show ?thesis
    by (intro exI [of _ ?out]) auto
qed

text \<open>
  Claim C2. The script does not throw when the storage can be read. With
  \<^verbatim>\<open>contextType = "background"\<close>, every returned entry has \<open>ctx\<close> \<^verbatim>\<open>background\<close> or
  \<^verbatim>\<open>service_worker\<close>; the filters retain exactly the entries with one of these two tags
  among the entries that pass the other filters (time, session, level), in their
  order; and when the result is not truncated by \<open>maxEntries\<close> the returned entries are
  exactly those, each as often as it is stored. For any other \<open>contextType\<close> \<open>c\<close> that is
  not \<^verbatim>\<open>all\<close>, the same holds with the single tag \<open>c\<close>.
\<close>

theorem context_filter_background_alias:
  "\<exists>out. dev_logs_script D p (Inr stored) = Inr (Logs out) \<and>
     (contextType p = ''background'' \<longrightarrow>
        (\<forall>e \<in> set out. log_ctx e = ''background'' \<or> log_ctx e = ''service_worker'') \<and>
        filtered_logs D p (stored_logs stored) =
          filter (\<lambda>e. log_ctx e = ''background'' \<or> log_ctx e = ''service_worker'')
            (filtered_logs D (p\<lparr>contextType := ''all''\<rparr>) (stored_logs stored)) \<and>
        (int (length (stored_logs stored)) \<le> maxEntries p \<longrightarrow>
           mset out = mset (filter (\<lambda>e. log_ctx e = ''background'' \<or> log_ctx e = ''service_worker'')
             (filtered_logs D (p\<lparr>contextType := ''all''\<rparr>) (stored_logs stored))))) \<and>
     (contextType p \<noteq> ''all'' \<and> contextType p \<noteq> ''background'' \<longrightarrow>
        (\<forall>e \<in> set out. log_ctx e = contextType p) \<and>
        filtered_logs D p (stored_logs stored) =
          filter (\<lambda>e. log_ctx e = contextType p)
            (filtered_logs D (p\<lparr>contextType := ''all''\<rparr>) (stored_logs stored)) \<and>
        (int (length (stored_logs stored)) \<le> maxEntries p \<longrightarrow>
           mset out = mset (filter (\<lambda>e. log_ctx e = contextType p)
             (filtered_logs D (p\<lparr>contextType := ''all''\<rparr>) (stored_logs stored)))))"
proof -
  let ?all = "stored_logs stored"
  let ?rest = "filtered_logs D (p\<lparr>contextType := ''all''\<rparr>) ?all"
  let ?out = "slice0 (maxEntries p) (js_sort (compare_logs D) (filtered_logs D p ?all))"
  have ret: "dev_logs_script D p (Inr stored) = Inr (Logs ?out)"
    by (simp add: dev_logs_script_returns)
  have sub: "set ?out \<subseteq> set (filtered_logs D p ?all)"
    using set_slice0 [of "maxEntries p"] by (metis set_js_sort)
  have whole: "int (length ?all) \<le> maxEntries p \<Longrightarrow> mset ?out = mset (filtered_logs D p ?all)"
  proof -
    assume "int (length ?all) \<le> maxEntries p"
    with length_filtered_logs [of D p ?all]
    have "int (length (js_sort (compare_logs D) (filtered_logs D p ?all))) \<le> maxEntries p"
      by (simp add: length_js_sort)
    then show ?thesis by (simp add: slice0_all mset_js_sort)
  qed
  have bg: "contextType p = ''background'' \<Longrightarrow>
            filtered_logs D p ?all
              = filter (\<lambda>e. log_ctx e = ''background'' \<or> log_ctx e = ''service_worker'') ?rest"
    using filtered_logs_context [of "''background''" p D ?all]
    by (simp add: context_matches_background)
  have other: "contextType p \<noteq> ''all'' \<Longrightarrow> contextType p \<noteq> ''background'' \<Longrightarrow>
            filtered_logs D p ?all = filter (\<lambda>e. log_ctx e = contextType p) ?rest"
    using filtered_logs_context [of "contextType p" p D ?all]
    by (simp add: context_matches_other)
  show ?thesis
  proof (intro exI [of _ ?out] conjI impI)
    show "dev_logs_script D p (Inr stored) = Inr (Logs ?out)" by (rule ret)
  next
    assume c: "contextType p = ''background''"
    from sub bg [OF c]
    show "\<forall>e \<in> set ?out. log_ctx e = ''background'' \<or> log_ctx e = ''service_worker''"
      by auto
    from bg [OF c]
    show "filtered_logs D p ?all
            = filter (\<lambda>e. log_ctx e = ''background'' \<or> log_ctx e = ''service_worker'') ?rest" .
    assume "int (length ?all) \<le> maxEntries p"
    from whole [OF this] bg [OF c]
    show "mset ?out = mset (filter (\<lambda>e. log_ctx e = ''background'' \<or> log_ctx e = ''service_worker'') ?rest)"
      by simp
  next
    assume c: "contextType p \<noteq> ''all'' \<and> contextType p \<noteq> ''background''"
    then have c1: "contextType p \<noteq> ''all''" and c2: "contextType p \<noteq> ''background''" by simp_all
    from sub other [OF c1 c2]
    show "\<forall>e \<in> set ?out. log_ctx e = contextType p" by auto
    from other [OF c1 c2]
    show "filtered_logs D p ?all = filter (\<lambda>e. log_ctx e = contextType p) ?rest" .
    assume "int (length ?all) \<le> maxEntries p"
    from whole [OF this] other [OF c1 c2]
    show "mset ?out = mset (filter (\<lambda>e. log_ctx e = contextType p) ?rest)"
      by simp
  qed
qed

theorem context_filter_background_alias_witness:
  "(\<exists>out. dev_logs_script example_getTime (example_params\<lparr>contextType := ''background''\<rparr>)
           (Inr (Some [example_log ''background'' ''info'' ''2025-01-01T00:00:00.000Z'',
                       example_log ''options'' ''error'' ''2025-01-01T00:00:02.000Z'',
                       example_log ''service_worker'' ''warn'' ''2025-01-01T00:00:01.000Z'']))
         = Inr (Logs out) \<and>
         (\<forall>e \<in> set out. log_ctx e = ''background'' \<or> log_ctx e = ''service_worker'') \<and>
         mset out = mset [example_log ''background'' ''info'' ''2025-01-01T00:00:00.000Z'',
                          example_log ''service_worker'' ''warn'' ''2025-01-01T00:00:01.000Z'']) \<and>
   (\<exists>out. dev_logs_script example_getTime (example_params\<lparr>contextType := ''options''\<rparr>)
           (Inr (Some [example_log ''background'' ''info'' ''2025-01-01T00:00:00.000Z'',
                       example_log ''options'' ''error'' ''2025-01-01T00:00:02.000Z'',
                       example_log ''service_worker'' ''warn'' ''2025-01-01T00:00:01.000Z'']))
         = Inr (Logs out) \<and>
         (\<forall>e \<in> set out. log_ctx e = ''options'') \<and>
         mset out = mset [example_log ''options'' ''error'' ''2025-01-01T00:00:02.000Z''])"
proof -
  let ?p = "example_params\<lparr>contextType := ''background''\<rparr>"
  let ?q = "example_params\<lparr>contextType := ''options''\<rparr>"
  let ?stored = "Some [example_log ''background'' ''info'' ''2025-01-01T00:00:00.000Z'',
                       example_log ''options'' ''error'' ''2025-01-01T00:00:02.000Z'',
                       example_log ''service_worker'' ''warn'' ''2025-01-01T00:00:01.000Z'']"
  have c: "contextType ?p = ''background''" by simp
  have n: "int (length (stored_logs ?stored)) \<le> maxEntries ?p"
    by (simp add: stored_logs_def example_params_def)
  have f: "filter (\<lambda>e. log_ctx e = ''background'' \<or> log_ctx e = ''service_worker'')
             (filtered_logs example_getTime (?p\<lparr>contextType := ''all''\<rparr>) (stored_logs ?stored))
           = [example_log ''background'' ''info'' ''2025-01-01T00:00:00.000Z'',
              example_log ''service_worker'' ''warn'' ''2025-01-01T00:00:01.000Z'']"
    by (simp add: filtered_logs_def filter_level_def filter_context_def filter_session_def
          filter_since_def stored_logs_def example_params_def example_log_def)
  from context_filter_background_alias [of example_getTime ?p ?stored]
  obtain out where r: "dev_logs_script example_getTime ?p (Inr ?stored) = Inr (Logs out)"
    and bg: "contextType ?p = ''background'' \<longrightarrow>
               (\<forall>e \<in> set out. log_ctx e = ''background'' \<or> log_ctx e = ''service_worker'') \<and>
               filtered_logs example_getTime ?p (stored_logs ?stored) =
                 filter (\<lambda>e. log_ctx e = ''background'' \<or> log_ctx e = ''service_worker'')
                   (filtered_logs example_getTime (?p\<lparr>contextType := ''all''\<rparr>) (stored_logs ?stored)) \<and>
               (int (length (stored_logs ?stored)) \<le> maxEntries ?p \<longrightarrow>
                  mset out = mset (filter (\<lambda>e. log_ctx e = ''background'' \<or> log_ctx e = ''service_worker'')
                    (filtered_logs example_getTime (?p\<lparr>contextType := ''all''\<rparr>) (stored_logs ?stored))))"
    by blast
  from bg c n
  have a: "\<forall>e \<in> set out. log_ctx e = ''background'' \<or> log_ctx e = ''service_worker''"
    and m: "mset out = mset (filter (\<lambda>e. log_ctx e = ''background'' \<or> log_ctx e = ''service_worker'')
              (filtered_logs example_getTime (?p\<lparr>contextType := ''all''\<rparr>) (stored_logs ?stored)))"
    by blast+
  from m have m': "mset out = mset [example_log ''background'' ''info'' ''2025-01-01T00:00:00.000Z'',
                          example_log ''service_worker'' ''warn'' ''2025-01-01T00:00:01.000Z'']"
    by (simp only: f)
  from r a m' have first: "\<exists>out. dev_logs_script example_getTime ?p (Inr ?stored) = Inr (Logs out) \<and>
         (\<forall>e \<in> set out. log_ctx e = ''background'' \<or> log_ctx e = ''service_worker'') \<and>
         mset out = mset [example_log ''background'' ''info'' ''2025-01-01T00:00:00.000Z'',
                          example_log ''service_worker'' ''warn'' ''2025-01-01T00:00:01.000Z'']"
    by blast
  have c': "contextType ?q \<noteq> ''all'' \<and> contextType ?q \<noteq> ''background''" by simp
  have n': "int (length (stored_logs ?stored)) \<le> maxEntries ?q"
    by (simp add: stored_logs_def example_params_def)
  have f': "filter (\<lambda>e. log_ctx e = contextType ?q)
             (filtered_logs example_getTime (?q\<lparr>contextType := ''all''\<rparr>) (stored_logs ?stored))
           = [example_log ''options'' ''error'' ''2025-01-01T00:00:02.000Z'']"
    by (simp add: filtered_logs_def filter_level_def filter_context_def filter_session_def
          filter_since_def stored_logs_def example_params_def example_log_def)
  from context_filter_background_alias [of example_getTime ?q ?stored]
  obtain out' where r': "dev_logs_script example_getTime ?q (Inr ?stored) = Inr (Logs out')"
    and other: "contextType ?q \<noteq> ''all'' \<and> contextType ?q \<noteq> ''background'' \<longrightarrow>
               (\<forall>e \<in> set out'. log_ctx e = contextType ?q) \<and>
               filtered_logs example_getTime ?q (stored_logs ?stored) =
                 filter (\<lambda>e. log_ctx e = contextType ?q)
                   (filtered_logs example_getTime (?q\<lparr>contextType := ''all''\<rparr>) (stored_logs ?stored)) \<and>
               (int (length (stored_logs ?stored)) \<le> maxEntries ?q \<longrightarrow>
                  mset out' = mset (filter (\<lambda>e. log_ctx e = contextType ?q)
                    (filtered_logs example_getTime (?q\<lparr>contextType := ''all''\<rparr>) (stored_logs ?stored))))"
    by blast
  from other c' n'
  have a': "\<forall>e \<in> set out'. log_ctx e = contextType ?q"
    and k: "mset out' = mset (filter (\<lambda>e. log_ctx e = contextType ?q)
              (filtered_logs example_getTime (?q\<lparr>contextType := ''all''\<rparr>) (stored_logs ?stored)))"
    by blast+
  from k have k': "mset out' = mset [example_log ''options'' ''error'' ''2025-01-01T00:00:02.000Z'']"
    by (simp only: f')
  from a' have a'': "\<forall>e \<in> set out'. log_ctx e = ''options''" by simp
  from r' a'' k' have second: "\<exists>out. dev_logs_script example_getTime ?q (Inr ?stored) = Inr (Logs out) \<and>
         (\<forall>e \<in> set out. log_ctx e = ''options'') \<and>
         mset out = mset [example_log ''options'' ''error'' ''2025-01-01T00:00:02.000Z'']"
    by blast
  from first second show ?thesis by blast
qed

text \<open>
  Claim C3 fails at \<^verbatim>\<open>since = 0\<close>: the guard \<^verbatim>\<open>if (since)\<close> takes 0 for an absent bound,
  no entry is filtered, and an entry stamped one second before the epoch (timestamp
  -1000, which is not \<open>\<ge> 0\<close>) is returned.
\<close>

theorem since_zero_is_no_bound:
  "dev_logs_script example_getTime (example_params\<lparr>since := Some 0\<rparr>)
     (Inr (Some [example_log ''background'' ''info'' ''1969-12-31T23:59:59.000Z'']))
   = Inr (Logs [example_log ''background'' ''info'' ''1969-12-31T23:59:59.000Z'']) \<and>
   \<not> time_ge (example_getTime (log_t (example_log ''background'' ''info'' ''1969-12-31T23:59:59.000Z''))) 0"
  by (simp add: dev_logs_script_def dev_logs_try_def filtered_logs_def filter_level_def
        filter_context_def filter_session_def filter_since_def slice0_def stored_logs_def
        example_params_def example_log_def time_ge_def example_getTime_def example_dates_def)

section \<open>Properties of the handlers\<close>

subsection \<open>What the steps of a handler leave unchanged\<close>

lemma keeps_ret: "keeps_session (ret x)"
  by (simp add: keeps_session_def ret_def)

lemma keeps_throw: "keeps_session (throw e)"
  by (simp add: keeps_session_def throw_def)

lemma keeps_append: "keeps_session (appendResponseLine l)"
  by (simp add: keeps_session_def appendResponseLine_def)

lemma keeps_goto: "keeps_session (goto E pg u opts)"
  by (simp add: keeps_session_def goto_def logged_def split: option.split)

lemma keeps_evaluate: "keeps_session (evaluate E pg script)"
  by (simp add: keeps_session_def evaluate_def logged_def split: option.split)

lemma keeps_andThen:
  assumes "keeps_session m" and "\<And>x. keeps_session (f x)"
  shows "keeps_session (andThen m f)"
  unfolding keeps_session_def andThen_def
proof (intro allI)
  fix s
  obtain r s' where ms: "m s = (r, s')" by (cases "m s")
  with assms(1) have s': "pages s' = pages s \<and> selected s' = selected s"
    by (metis keeps_session_def snd_conv)
  show "pages (snd (case m s of (Inl e, s') \<Rightarrow> (Inl e, s') | (Inr x, s') \<Rightarrow> f x s')) = pages s \<and>
        selected (snd (case m s of (Inl e, s') \<Rightarrow> (Inl e, s') | (Inr x, s') \<Rightarrow> f x s')) = selected s"
  proof (cases r)
    case (Inl e)
    with ms s' show ?thesis by simp
  next
    case (Inr x)
    from assms(2) [of x] have "pages (snd (f x s')) = pages s' \<and> selected (snd (f x s')) = selected s'"
      by (simp add: keeps_session_def)
    with ms s' Inr show ?thesis by simp
  qed
qed

lemma keeps_try_catch:
  assumes "keeps_session m" and "\<And>e. keeps_session (h e)"
  shows "keeps_session (try_catch m h)"
  unfolding keeps_session_def try_catch_def
proof (intro allI)
  fix s
  obtain r s' where ms: "m s = (r, s')" by (cases "m s")
  with assms(1) have s': "pages s' = pages s \<and> selected s' = selected s"
    by (metis keeps_session_def snd_conv)
  show "pages (snd (case m s of (Inl e, s') \<Rightarrow> h e s' | (Inr x, s') \<Rightarrow> (Inr x, s'))) = pages s \<and>
        selected (snd (case m s of (Inl e, s') \<Rightarrow> h e s' | (Inr x, s') \<Rightarrow> (Inr x, s'))) = selected s"
  proof (cases r)
    case (Inr x)
    with ms s' show ?thesis by simp
  next
    case (Inl e)
    from assms(2) [of e] have "pages (snd (h e s')) = pages s' \<and> selected (snd (h e s')) = selected s'"
      by (simp add: keeps_session_def)
    with ms s' Inl show ?thesis by simp
  qed
qed

lemma keeps_append_lines: "keeps_session (append_lines ls)"
  by (induction ls) (simp_all add: keeps_ret keeps_andThen keeps_append)

lemma keeps_print_logs: "keeps_session (print_logs E ls)"
  by (induction ls) (simp_all add: keeps_ret keeps_throw keeps_andThen keeps_append split: sum.split)

lemma keeps_print_sessions: "keeps_session (print_sessions E m)"
  by (induction m rule: print_sessions.induct)
     (simp_all add: keeps_ret keeps_andThen keeps_append keeps_print_logs)

lemma keeps_report_logs: "keeps_session (report_logs E p r)"
  by (simp add: report_logs_def keeps_append keeps_append_lines keeps_andThen keeps_print_sessions
           split: logs_result.split)

lemma keeps_logs_navigate: "keeps_session (logs_navigate E p pg)"
  by (simp add: logs_navigate_def keeps_try_catch keeps_goto)

lemma keeps_logs_with_page: "keeps_session (logs_with_page E p pg)"
  by (simp add: logs_with_page_def keeps_andThen keeps_logs_navigate keeps_evaluate keeps_report_logs)

lemma keeps_access_tests: "keeps_session (access_tests E x pg)"
  unfolding access_tests_def
  by (intro keeps_andThen keeps_try_catch keeps_goto keeps_ret keeps_evaluate)
     (simp_all add: keeps_ret)

lemma writes_ret: "writes (ret x)"
  unfolding writes_def ret_def by (intro exI [of _ "Inr x"] exI [of _ "[]"]) simp

lemma writes_throw: "writes (throw e)"
  unfolding writes_def throw_def by (intro exI [of _ "Inl e"] exI [of _ "[]"]) simp

lemma writes_append: "writes (appendResponseLine l)"
  unfolding writes_def appendResponseLine_def by (intro exI [of _ "Inr ()"] exI [of _ "[l]"]) simp

lemma writes_andThen:
  assumes "writes m" and "\<And>x. writes (f x)"
  shows "writes (andThen m f)"
proof -
  from assms(1) obtain r ls where m: "\<And>s. m s = (r, s\<lparr>response := response s @ ls\<rparr>)"
    unfolding writes_def by blast
  show ?thesis
  proof (cases r)
    case (Inl e)
    with m have "\<forall>s. andThen m f s = (Inl e, s\<lparr>response := response s @ ls\<rparr>)"
      by (simp add: andThen_def)
    then show ?thesis unfolding writes_def by blast
  next
    case (Inr x)
    from assms(2) [of x] obtain q ks where f: "\<And>s. f x s = (q, s\<lparr>response := response s @ ks\<rparr>)"
      unfolding writes_def by blast
    from m Inr f have "\<forall>s. andThen m f s = (q, s\<lparr>response := response s @ (ls @ ks)\<rparr>)"
      by (simp add: andThen_def)
    then show ?thesis unfolding writes_def by blast
  qed
qed

lemma writes_append_lines: "writes (append_lines ls)"
  by (induction ls) (simp_all add: writes_ret writes_andThen writes_append)

lemma writes_print_logs: "writes (print_logs E ls)"
  by (induction ls) (simp_all add: writes_ret writes_throw writes_andThen writes_append split: sum.split)

lemma writes_print_sessions: "writes (print_sessions E m)"
  by (induction m rule: print_sessions.induct)
     (simp_all add: writes_ret writes_andThen writes_append writes_print_logs)

lemma writes_report_logs: "writes (report_logs E p r)"
  by (simp add: report_logs_def writes_append writes_append_lines writes_andThen
        writes_print_sessions split: logs_result.split)

lemma writes_display_results: "writes (display_results rs)"
  unfolding display_results_def Let_def
  by (intro writes_andThen writes_append writes_append_lines)
     (simp_all add: writes_append)

lemma writesD:
  assumes "writes m"
  shows "pages (snd (m s)) = pages s" and "selected (snd (m s)) = selected s"
    and "calls (snd (m s)) = calls s"
proof -
  from assms obtain r ls where "m s = (r, s\<lparr>response := response s @ ls\<rparr>)"
    unfolding writes_def by blast
  then show "pages (snd (m s)) = pages s" and "selected (snd (m s)) = selected s"
    and "calls (snd (m s)) = calls s" by simp_all
qed

lemma open_temp_page:
  assumes "open_page E = Inr pg"
  shows "andThen getSelectedPageIdx (\<lambda>originalPageIdx.
         andThen (newPage (open_page E)) (\<lambda>page.
         andThen getSelectedPageIdx (\<lambda>newPageIdx. k originalPageIdx page newPageIdx))) s
         = k (selected s) pg (Some (length (pages s))) (opened pg s)"
  using assms
  by (simp add: andThen_def getSelectedPageIdx_def newPage_def logged_def opened_def)

lemma open_temp_page_fails:
  assumes "open_page E = Inl e"
  shows "andThen getSelectedPageIdx (\<lambda>originalPageIdx.
         andThen (newPage (open_page E)) (\<lambda>page. k originalPageIdx page)) s
         = (Inl e, s\<lparr>calls := calls s @ [GetSelectedPageIdx, NewPage]\<rparr>)"
  using assms
  by (simp add: andThen_def getSelectedPageIdx_def newPage_def logged_def)

lemma close_and_restore_temp:
  assumes "session_inv s" and "pages s4 = pages s @ [pg]"
  shows "close_and_restore (Some (length (pages s))) (selected s) s4
         = ((if selected s = None then Inl IndexOutOfRangeError else Inr ()),
            s4\<lparr>pages := pages s, selected := selected s,
               calls := calls s4 @ [ClosePage (Some (length (pages s))),
                                    SetSelectedPageIdx (selected s)]\<rparr>)"
proof (cases "selected s")
  case None
  with assms(1) have "pages s = []" by (simp add: session_inv_def)
  with None assms(2) show ?thesis
    by (simp add: close_and_restore_def andThen_def closePage_def setSelectedPageIdx_def
          valid_idx_def logged_def remove_at_def)
next
  case (Some n)
  with assms(1) have "n < length (pages s)" by (simp add: session_inv_def)
  with Some assms(2) show ?thesis
    by (simp add: close_and_restore_def andThen_def closePage_def setSelectedPageIdx_def
          valid_idx_def logged_def remove_at_def)
qed

lemma scoped_page:
  assumes "session_inv s" and "keeps_session body"
  shows "try_finally body (close_and_restore (Some (length (pages s))) (selected s)) (opened pg s)
         = (case body (opened pg s) of (r, s4) \<Rightarrow>
              ((if selected s = None then Inl IndexOutOfRangeError else r),
               s4\<lparr>pages := pages s, selected := selected s,
                  calls := calls s4 @ [ClosePage (Some (length (pages s))),
                                       SetSelectedPageIdx (selected s)]\<rparr>))"
proof -
  obtain r s4 where b: "body (opened pg s) = (r, s4)" by (cases "body (opened pg s)")
  from assms(2) have "pages (snd (body (opened pg s))) = pages (opened pg s)"
    by (simp add: keeps_session_def)
  with b have "pages s4 = pages s @ [pg]" by (simp add: opened_def)
  from close_and_restore_temp [OF assms(1) this] b show ?thesis
    by (simp add: try_finally_def)
qed

lemma get_extension_logs_try_opened:
  assumes "session_inv s" and "open_page E = Inr pg"
  shows "get_extension_logs_try E p s
         = (case logs_with_page E p pg (opened pg s) of (r, s4) \<Rightarrow>
              ((if selected s = None then Inl IndexOutOfRangeError else r),
               s4\<lparr>pages := pages s, selected := selected s,
                  calls := calls s4 @ [ClosePage (Some (length (pages s))),
                                       SetSelectedPageIdx (selected s)]\<rparr>))"
  unfolding get_extension_logs_try_def
  by (simp only: open_temp_page [OF assms(2)] scoped_page [OF assms(1) keeps_logs_with_page])

lemma test_extension_access_try_opened:
  assumes "session_inv s" and "open_page E = Inr pg"
  shows "test_extension_access_try E x s
         = (case access_tests E x pg (opened pg s) of (r, s4) \<Rightarrow>
              (case (if selected s = None then Inl IndexOutOfRangeError else r) of
                 Inl e \<Rightarrow> (Inl e, s4\<lparr>pages := pages s, selected := selected s,
                                  calls := calls s4 @ [ClosePage (Some (length (pages s))),
                                                       SetSelectedPageIdx (selected s)]\<rparr>)
               | Inr rs \<Rightarrow> display_results rs
                            (s4\<lparr>pages := pages s, selected := selected s,
                                calls := calls s4 @ [ClosePage (Some (length (pages s))),
                                                     SetSelectedPageIdx (selected s)]\<rparr>)))"
proof -
  have "test_extension_access_try E x s
        = andThen (try_finally (access_tests E x pg)
                     (close_and_restore (Some (length (pages s))) (selected s)))
            display_results (opened pg s)"
    unfolding test_extension_access_try_def
    by (simp only: open_temp_page [OF assms(2)])
  then show ?thesis
    by (simp add: andThen_def scoped_page [OF assms(1) keeps_access_tests]
          split: prod.split sum.split)
qed

lemma catch_append_state:
  "snd (try_catch m (\<lambda>error. appendResponseLine (f error)) s)
   = (case m s of (Inl e, s1) \<Rightarrow> s1\<lparr>response := response s1 @ [f e]\<rparr> | (Inr x, s1) \<Rightarrow> s1)"
  by (simp add: try_catch_def appendResponseLine_def split: prod.split sum.split)

lemma catch_append_result:
  "fst (try_catch m (\<lambda>error. appendResponseLine (f error)) s) = Inr ()"
  by (simp add: try_catch_def appendResponseLine_def split: prod.split sum.split)

lemma logs_closed_restored:
  assumes "session_inv s" and "open_page E = Inr pg"
  shows "pages (snd (get_extension_logs E p s)) = pages s \<and>
         selected (snd (get_extension_logs E p s)) = selected s \<and>
         (\<exists>before. calls (snd (get_extension_logs E p s))
            = before @ [ClosePage (Some (length (pages s))), SetSelectedPageIdx (selected s)])"
proof -
  obtain r s4 where b: "logs_with_page E p pg (opened pg s) = (r, s4)"
    by (cases "logs_with_page E p pg (opened pg s)")
  show ?thesis
    unfolding get_extension_logs_def catch_append_state
      get_extension_logs_try_opened [OF assms] b
    by (simp split: sum.split)
qed

lemma access_closed_restored:
  assumes "session_inv s" and "open_page E = Inr pg"
  shows "pages (snd (test_extension_access E x s)) = pages s \<and>
         selected (snd (test_extension_access E x s)) = selected s \<and>
         (\<exists>before. calls (snd (test_extension_access E x s))
            = before @ [ClosePage (Some (length (pages s))), SetSelectedPageIdx (selected s)])"
proof -
  define s0 where "s0 = header x s"
  have same: "pages s0 = pages s" "selected s0 = selected s"
    by (simp_all add: s0_def header_def)
  have inv0: "session_inv s0"
    using assms(1) unfolding session_inv_def same .
  have run: "test_extension_access E x s
             = try_catch (test_extension_access_try E x)
                 (\<lambda>error. appendResponseLine (''Failed to test extension: '' @ error_text error)) s0"
    by (simp add: test_extension_access_def andThen_def appendResponseLine_def s0_def header_def)
  obtain r s4 where b: "access_tests E x pg (opened pg s0) = (r, s4)"
    by (cases "access_tests E x pg (opened pg s0)")
  define s5 where "s5 = s4\<lparr>pages := pages s, selected := selected s,
                calls := calls s4 @ [ClosePage (Some (length (pages s))),
                                     SetSelectedPageIdx (selected s)]\<rparr>"
  have s5: "pages s5 = pages s" "selected s5 = selected s"
    "calls s5 = calls s4 @ [ClosePage (Some (length (pages s))), SetSelectedPageIdx (selected s)]"
    by (simp_all add: s5_def)
  have try_eq: "test_extension_access_try E x s0
                = (case (if selected s = None then Inl IndexOutOfRangeError else r) of
                     Inl e \<Rightarrow> (Inl e, s5) | Inr rs \<Rightarrow> display_results rs s5)"
    unfolding test_extension_access_try_opened [OF inv0 assms(2)] b same s5_def by simp
  have key: "pages (snd (test_extension_access_try E x s0)) = pages s \<and>
             selected (snd (test_extension_access_try E x s0)) = selected s \<and>
             calls (snd (test_extension_access_try E x s0)) = calls s5"
  proof (cases "if selected s = None then Inl IndexOutOfRangeError else r")
    case (Inl e)
    then show ?thesis unfolding try_eq by (simp add: s5)
  next
    case (Inr rs)
    then have "test_extension_access_try E x s0 = display_results rs s5"
      unfolding try_eq by simp
    with writesD [OF writes_display_results, of rs s5]
    show ?thesis by (simp add: s5)
  qed
  obtain q s6 where t: "test_extension_access_try E x s0 = (q, s6)"
    by (cases "test_extension_access_try E x s0")
  with key have "pages s6 = pages s" and "selected s6 = selected s" and "calls s6 = calls s5"
    by simp_all
  then show ?thesis
    unfolding run catch_append_state t
    by (simp add: s5 split: sum.split)
qed

text \<open>
  Claim C1. In a session that satisfies the invariant of the data model, whenever the
  temporary page was opened, each of the two handlers ends with the page sequence it
  started with (the temporary page is closed) and with the selected index it started
  with, whatever the navigations, the evaluation and the rendering did; and the last two
  calls it made on the Session Context are \<open>closePage\<close> on the index of the temporary page
  and then \<open>setSelectedPageIdx\<close> on the index captured before the page was opened.
\<close>

theorem temp_page_closed_then_selection_restored:
  assumes "session_inv s" and "open_page E = Inr pg"
  shows "(pages (snd (get_extension_logs E p s)) = pages s \<and>
          selected (snd (get_extension_logs E p s)) = selected s \<and>
          (\<exists>before. calls (snd (get_extension_logs E p s))
             = before @ [ClosePage (Some (length (pages s))), SetSelectedPageIdx (selected s)])) \<and>
         (pages (snd (test_extension_access E x s)) = pages s \<and>
          selected (snd (test_extension_access E x s)) = selected s \<and>
          (\<exists>before. calls (snd (test_extension_access E x s))
             = before @ [ClosePage (Some (length (pages s))), SetSelectedPageIdx (selected s)]))"
  using logs_closed_restored [OF assms] access_closed_restored [OF assms] by blast

theorem temp_page_closed_then_selection_restored_witness:
  "selected (snd (get_extension_logs example_env example_params example_world)) = Some 1 \<and>
   pages (snd (get_extension_logs example_env example_params example_world)) = [1, 2] \<and>
   selected (snd (test_extension_access example_env ''abcdefgh'' example_world)) = Some 1 \<and>
   pages (snd (test_extension_access example_env ''abcdefgh'' example_world)) = [1, 2]"
proof -
  have inv: "session_inv example_world"
    by (simp add: session_inv_def example_world_def)
  have opened: "open_page example_env = Inr 7"
    by (simp add: example_env_def)
  have start: "selected example_world = Some 1" "pages example_world = [1, 2]"
    by (simp_all add: example_world_def)
  from temp_page_closed_then_selection_restored
         [OF inv opened, of example_params "''abcdefgh''"]
  show ?thesis unfolding start by blast
qed

subsection \<open>The outermost catch\<close>

lemma append_lines_run: "append_lines ls s = (Inr (), s\<lparr>response := response s @ ls\<rparr>)"
  by (induction ls arbitrary: s) (simp_all add: ret_def andThen_def appendResponseLine_def)

lemma test_extension_access_run:
  "test_extension_access E x s
   = try_catch (test_extension_access_try E x)
       (\<lambda>error. appendResponseLine (''Failed to test extension: '' @ error_text error)) (header x s)"
  by (simp add: test_extension_access_def andThen_def appendResponseLine_def header_def)

text \<open>
  Claim C7. Neither handler ever throws: for every environment, request and state it
  returns normally. Whenever the body of its outermost \<^verbatim>\<open>try\<close> throws an exception \<open>e\<close>
  (from opening the page, a navigation, the evaluation, the rendering or the cleanup),
  the handler ends in the state the body reached, with exactly one line appended to the
  response: the handler's failure prefix followed by the text of \<open>e\<close>; when the body
  does not throw, nothing is appended.
\<close>

theorem handlers_never_throw:
  "fst (get_extension_logs E p s) = Inr () \<and>
   fst (test_extension_access E x s) = Inr () \<and>
   (\<forall>e s1. get_extension_logs_try E p s = (Inl e, s1) \<longrightarrow>
      get_extension_logs E p s
        = (Inr (), s1\<lparr>response := response s1 @ [''Failed to retrieve extension logs: '' @ error_text e]\<rparr>)) \<and>
   (\<forall>s1. get_extension_logs_try E p s = (Inr (), s1) \<longrightarrow> get_extension_logs E p s = (Inr (), s1)) \<and>
   (\<forall>e s1. test_extension_access_try E x (header x s) = (Inl e, s1) \<longrightarrow>
      test_extension_access E x s
        = (Inr (), s1\<lparr>response := response s1 @ [''Failed to test extension: '' @ error_text e]\<rparr>)) \<and>
   (\<forall>s1. test_extension_access_try E x (header x s) = (Inr (), s1) \<longrightarrow>
      test_extension_access E x s = (Inr (), s1))"
  unfolding test_extension_access_run
  by (simp add: get_extension_logs_def catch_append_result)
     (simp add: try_catch_def appendResponseLine_def)

lemma logs_try_example:
  "get_extension_logs_try example_env example_params example_world
   = (Inr (), example_world\<lparr>response := no_logs_lines,
        calls := [GetSelectedPageIdx, NewPage, GetSelectedPageIdx,
                  Goto 7 (options_url (extensionId example_params)) idle_10s, Evaluate 7,
                  ClosePage (Some 2), SetSelectedPageIdx (Some 1)]\<rparr>)"
  by (simp add: get_extension_logs_try_def try_finally_def
        andThen_def getSelectedPageIdx_def newPage_def closePage_def setSelectedPageIdx_def
        close_and_restore_def logs_with_page_def logs_navigate_def try_catch_def goto_def
        evaluate_def report_logs_def dev_logs_script_def dev_logs_try_def filtered_logs_def
        filter_level_def filter_context_def filter_session_def filter_since_def stored_logs_def
        slice0_def appendResponseLine_def ret_def logged_def valid_idx_def remove_at_def
        example_env_def example_params_def example_world_def no_logs_lines_def)

lemma access_try_example:
  "\<exists>s1. test_extension_access_try example_env ''abcdefgh'' (header ''abcdefgh'' example_world)
         = (Inr (), s1)"
  by (simp add: test_extension_access_try_def try_finally_def access_tests_def
        display_results_def andThen_def getSelectedPageIdx_def newPage_def closePage_def
        setSelectedPageIdx_def close_and_restore_def try_catch_def goto_def evaluate_def
        storage_test_script_def append_lines_run Let_def appendResponseLine_def ret_def
        logged_def valid_idx_def remove_at_def header_def example_env_def example_world_def)

theorem handlers_never_throw_witness:
  "get_extension_logs (example_env\<lparr>open_page := Inl (Error ''Target closed'')\<rparr>)
       example_params example_world
     = (Inr (), example_world\<lparr>response := [''Failed to retrieve extension logs: Target closed''],
                              calls := [GetSelectedPageIdx, NewPage]\<rparr>) \<and>
   test_extension_access (example_env\<lparr>open_page := Inl (Error ''Target closed'')\<rparr>)
       ''abcdefgh'' example_world
     = (Inr (), example_world\<lparr>response := [''Testing extension: abcdefgh'', [],
                                            ''Failed to test extension: Target closed''],
                              calls := [GetSelectedPageIdx, NewPage]\<rparr>) \<and>
   get_extension_logs example_env example_params example_world
     = (Inr (), example_world\<lparr>response := no_logs_lines,
          calls := [GetSelectedPageIdx, NewPage, GetSelectedPageIdx,
                    Goto 7 (options_url (extensionId example_params)) idle_10s, Evaluate 7,
                    ClosePage (Some 2), SetSelectedPageIdx (Some 1)]\<rparr>) \<and>
   test_extension_access example_env ''abcdefgh'' example_world
     = test_extension_access_try example_env ''abcdefgh'' (header ''abcdefgh'' example_world)"
proof -
  let ?E = "example_env\<lparr>open_page := Inl (Error ''Target closed'')\<rparr>"
  have closed: "open_page ?E = Inl (Error ''Target closed'')" by simp
  have logs: "get_extension_logs_try ?E example_params example_world
              = (Inl (Error ''Target closed''),
                 example_world\<lparr>calls := calls example_world @ [GetSelectedPageIdx, NewPage]\<rparr>)"
    unfolding get_extension_logs_try_def by (rule open_temp_page_fails [OF closed])
  have access: "test_extension_access_try ?E ''abcdefgh'' (header ''abcdefgh'' example_world)
              = (Inl (Error ''Target closed''),
                 (header ''abcdefgh'' example_world)
                   \<lparr>calls := calls (header ''abcdefgh'' example_world) @ [GetSelectedPageIdx, NewPage]\<rparr>)"
    unfolding test_extension_access_try_def by (rule open_temp_page_fails [OF closed])
  note t = handlers_never_throw [of ?E example_params example_world "''abcdefgh''"]
  from t logs
  have one: "get_extension_logs ?E example_params example_world
        = (Inr (), (example_world\<lparr>calls := calls example_world @ [GetSelectedPageIdx, NewPage]\<rparr>)
             \<lparr>response := response (example_world\<lparr>calls := calls example_world @ [GetSelectedPageIdx, NewPage]\<rparr>)
                  @ [''Failed to retrieve extension logs: '' @ error_text (Error ''Target closed'')]\<rparr>)"
    by blast
  from t access
  have two: "test_extension_access ?E ''abcdefgh'' example_world
        = (Inr (), ((header ''abcdefgh'' example_world)
                   \<lparr>calls := calls (header ''abcdefgh'' example_world) @ [GetSelectedPageIdx, NewPage]\<rparr>)
             \<lparr>response := response ((header ''abcdefgh'' example_world)
                   \<lparr>calls := calls (header ''abcdefgh'' example_world) @ [GetSelectedPageIdx, NewPage]\<rparr>)
                  @ [''Failed to test extension: '' @ error_text (Error ''Target closed'')]\<rparr>)"
    by blast
  note u = handlers_never_throw [of example_env example_params example_world "''abcdefgh''"]
  from u logs_try_example
  have three: "get_extension_logs example_env example_params example_world
     = (Inr (), example_world\<lparr>response := no_logs_lines,
          calls := [GetSelectedPageIdx, NewPage, GetSelectedPageIdx,
                    Goto 7 (options_url (extensionId example_params)) idle_10s, Evaluate 7,
                    ClosePage (Some 2), SetSelectedPageIdx (Some 1)]\<rparr>)"
    by blast
  from access_try_example obtain s1
    where r: "test_extension_access_try example_env ''abcdefgh'' (header ''abcdefgh'' example_world)
              = (Inr (), s1)"
    by blast
  from u r have "test_extension_access example_env ''abcdefgh'' example_world = (Inr (), s1)"
    by blast
  with r have four: "test_extension_access example_env ''abcdefgh'' example_world
     = test_extension_access_try example_env ''abcdefgh'' (header ''abcdefgh'' example_world)"
    by simp
  have shape: "get_extension_logs ?E example_params example_world
     = (Inr (), example_world\<lparr>response := [''Failed to retrieve extension logs: Target closed''],
                              calls := [GetSelectedPageIdx, NewPage]\<rparr>)"
    "test_extension_access ?E ''abcdefgh'' example_world
     = (Inr (), example_world\<lparr>response := [''Testing extension: abcdefgh'', [],
                                            ''Failed to test extension: Target closed''],
                              calls := [GetSelectedPageIdx, NewPage]\<rparr>)"
    unfolding one two by (simp_all add: example_world_def header_def)
  from shape three four show ?thesis by blast
qed

text \<open>
  An exception of the cleanup: in a session without any page the selection is "none",
  which \<open>setSelectedPageIdx\<close> refuses; the refusal is caught and reported like any
  other failure, after the lines already written.
\<close>

lemma cleanup_failure_is_reported:
  "get_extension_logs example_env example_params (example_world\<lparr>pages := [], selected := None\<rparr>)
   = (Inr (), example_world\<lparr>pages := [], selected := None,
        response := no_logs_lines @ [''Failed to retrieve extension logs: Index out of range''],
        calls := [GetSelectedPageIdx, NewPage, GetSelectedPageIdx,
                  Goto 7 (options_url (extensionId example_params)) idle_10s, Evaluate 7,
                  ClosePage (Some 0), SetSelectedPageIdx None]\<rparr>)"
  by (simp add: get_extension_logs_def get_extension_logs_try_def try_catch_def try_finally_def
        andThen_def getSelectedPageIdx_def newPage_def closePage_def setSelectedPageIdx_def
        close_and_restore_def logs_with_page_def logs_navigate_def goto_def evaluate_def
        report_logs_def dev_logs_script_def dev_logs_try_def filtered_logs_def filter_level_def
        filter_context_def filter_session_def filter_since_def stored_logs_def slice0_def
        appendResponseLine_def ret_def logged_def valid_idx_def remove_at_def
        example_env_def example_params_def example_world_def no_logs_lines_def)

subsection \<open>Navigation\<close>

lemma logs_navigate_primary:
  assumes "goto_result E (options_url (extensionId p)) idle_10s = None"
  shows "logs_navigate E p pg s
         = (Inr (), s\<lparr>calls := calls s @ [Goto pg (options_url (extensionId p)) idle_10s]\<rparr>)"
  using assms by (simp add: logs_navigate_def try_catch_def goto_def logged_def)

lemma logs_navigate_fallback:
  assumes "goto_result E (options_url (extensionId p)) idle_10s = Some e1"
  shows "logs_navigate E p pg s
         = ((case goto_result E (root_url (extensionId p)) idle_10s of
               None \<Rightarrow> Inr () | Some e2 \<Rightarrow> Inl e2),
            s\<lparr>calls := calls s @ [Goto pg (options_url (extensionId p)) idle_10s,
                                  Goto pg (root_url (extensionId p)) idle_10s]\<rparr>)"
  using assms by (simp add: logs_navigate_def try_catch_def goto_def logged_def split: option.split)

lemma evaluate_and_report:
  "\<exists>r ls. \<forall>s. andThen (evaluate E pg script) (report_logs E p) s
             = (r, s\<lparr>response := response s @ ls, calls := calls s @ [Evaluate pg]\<rparr>)"
proof (cases "evaluate_fault E")
  case (Some e)
  then have "\<forall>s. andThen (evaluate E pg script) (report_logs E p) s
             = (Inl e, s\<lparr>response := response s @ [], calls := calls s @ [Evaluate pg]\<rparr>)"
    by (simp add: andThen_def evaluate_def logged_def)
  then show ?thesis by blast
next
  case None
  show ?thesis
  proof (cases script)
    case (Inl e)
    with None have "\<forall>s. andThen (evaluate E pg script) (report_logs E p) s
             = (Inl e, s\<lparr>response := response s @ [], calls := calls s @ [Evaluate pg]\<rparr>)"
      by (simp add: andThen_def evaluate_def logged_def)
    then show ?thesis by blast
  next
    case (Inr v)
    from writes_report_logs [of E p v]
    obtain r ls where w: "\<And>s. report_logs E p v s = (r, s\<lparr>response := response s @ ls\<rparr>)"
      unfolding writes_def by blast
    from None Inr have "\<forall>s. andThen (evaluate E pg script) (report_logs E p) s
             = (r, s\<lparr>response := response s @ ls, calls := calls s @ [Evaluate pg]\<rparr>)"
      by (simp add: andThen_def evaluate_def logged_def w)
    then show ?thesis by blast
  qed
qed

lemma format_log_primary_ok: "format_log (primary_ok E p) l = format_log E l"
  by (simp add: format_log_def primary_ok_def split: time_value.split)

lemma print_logs_primary_ok: "print_logs (primary_ok E p) ls = print_logs E ls"
  by (induction ls) (simp_all add: format_log_primary_ok split: sum.split)

lemma print_sessions_primary_ok: "print_sessions (primary_ok E p) m = print_sessions E m"
  by (induction m rule: print_sessions.induct) (simp_all add: print_logs_primary_ok)

lemma report_logs_primary_ok: "report_logs (primary_ok E p) q = report_logs E q"
  by (rule ext) (simp add: report_logs_def print_sessions_primary_ok split: logs_result.split)

lemma evaluate_primary_ok: "evaluate (primary_ok E p) pg script = evaluate E pg script"
  by (simp add: evaluate_def primary_ok_def)

lemma primary_ok_fields:
  "getTime (primary_ok E p) = getTime E" "storage_get (primary_ok E p) = storage_get E"
  "open_page (primary_ok E p) = open_page E"
  "goto_result (primary_ok E p) (options_url (extensionId p)) idle_10s = None"
  by (simp_all add: primary_ok_def)

subsection \<open>The response of get_extension_logs\<close>

lemma get_extension_logs_opened:
  assumes "session_inv s" and "open_page E = Inr pg"
      and "logs_with_page E p pg (opened pg s) = (r, s4)"
  shows "get_extension_logs E p s
         = (Inr (),
            s4\<lparr>pages := pages s, selected := selected s,
               response := (case (if selected s = None then Inl IndexOutOfRangeError else r) of
                              Inl e \<Rightarrow> response s4 @ [''Failed to retrieve extension logs: '' @ error_text e]
                            | Inr u \<Rightarrow> response s4),
               calls := calls s4 @ [ClosePage (Some (length (pages s))),
                                    SetSelectedPageIdx (selected s)]\<rparr>)"
proof -
  have t: "get_extension_logs_try E p s
           = ((if selected s = None then Inl IndexOutOfRangeError else r),
              s4\<lparr>pages := pages s, selected := selected s,
                 calls := calls s4 @ [ClosePage (Some (length (pages s))),
                                      SetSelectedPageIdx (selected s)]\<rparr>)"
    using get_extension_logs_try_opened [OF assms(1,2), of p] assms(3) by simp
  show ?thesis
    by (cases "if selected s = None then Inl IndexOutOfRangeError else r")
       (simp_all add: get_extension_logs_def try_catch_def t appendResponseLine_def)
qed

lemma logs_with_page_unfold:
  "logs_with_page E p pg s
   = (case logs_navigate E p pg s of
        (Inl e, s') \<Rightarrow> (Inl e, s')
      | (Inr u, s') \<Rightarrow>
          andThen (evaluate E pg (dev_logs_script (getTime E) p (storage_get E)))
            (report_logs E p) s')"
  unfolding logs_with_page_def by (subst andThen_def) (rule refl)

lemma opened_fields:
  "response (opened pg s) = response s"
  "calls (opened pg s) = calls s @ [GetSelectedPageIdx, NewPage, GetSelectedPageIdx]"
  by (simp_all add: opened_def)

lemma logs_navigate_ok:
  assumes "navigated E p"
  shows "\<exists>cs. \<forall>s. logs_navigate E p pg s = (Inr (), s\<lparr>calls := calls s @ cs\<rparr>)"
proof (cases "goto_result E (options_url (extensionId p)) idle_10s")
  case None
  from logs_navigate_primary [OF None] show ?thesis by blast
next
  case (Some e1)
  with assms have "goto_result E (root_url (extensionId p)) idle_10s = None"
    by (simp add: navigated_def)
  with logs_navigate_fallback [OF Some] show ?thesis by simp blast
qed

lemma logs_with_page_reported:
  assumes "navigated E p" and "evaluate_fault E = None"
      and "dev_logs_script (getTime E) p (storage_get E) = Inr v"
      and "\<And>t. report_logs E p v t = (Inr (), t\<lparr>response := response t @ ls\<rparr>)"
  shows "\<exists>cs. logs_with_page E p pg s
           = (Inr (), s\<lparr>response := response s @ ls, calls := calls s @ cs\<rparr>)"
proof -
  from logs_navigate_ok [OF assms(1)]
  obtain cs where nav: "\<And>t. logs_navigate E p pg t = (Inr (), t\<lparr>calls := calls t @ cs\<rparr>)"
    by blast
  have "logs_with_page E p pg s
        = (Inr (), s\<lparr>response := response s @ ls, calls := calls s @ (cs @ [Evaluate pg])\<rparr>)"
    by (simp add: logs_with_page_unfold nav andThen_def evaluate_def assms(2,3,4) logged_def)
  then show ?thesis by blast
qed

lemma get_extension_logs_reported:
  assumes "session_inv s" and "selected s \<noteq> None" and "open_page E = Inr pg"
      and "navigated E p" and "evaluate_fault E = None"
      and "dev_logs_script (getTime E) p (storage_get E) = Inr v"
      and "\<And>t. report_logs E p v t = (Inr (), t\<lparr>response := response t @ ls\<rparr>)"
  shows "fst (get_extension_logs E p s) = Inr () \<and>
         response (snd (get_extension_logs E p s)) = response s @ ls"
proof -
  from logs_with_page_reported [OF assms(4-7), of pg "opened pg s"]
  obtain cs where a: "logs_with_page E p pg (opened pg s)
        = (Inr (), (opened pg s)\<lparr>response := response (opened pg s) @ ls,
                                 calls := calls (opened pg s) @ cs\<rparr>)"
    by blast
  show ?thesis
    unfolding get_extension_logs_opened [OF assms(1,3) a]
    using assms(2) by (simp add: opened_fields)
qed

lemma filtered_logs_Nil: "filtered_logs D p [] = []"
  by (simp add: filtered_logs_def filter_level_def filter_context_def filter_session_def
        filter_since_def split: option.split)

text \<open>
  Claim C4. When the temporary page is open and the navigation to
  \<^verbatim>\<open>chrome-extension://<extensionId>/options.html\<close> fails, the next call on the driver is a
  navigation to \<^verbatim>\<open>chrome-extension://<extensionId>/\<close> with a timeout of 10000 ms of its own.
  When that one succeeds, the response is the one of a run in which the first
  navigation succeeded: nothing of the failure is in it. When it fails with \<open>e2\<close>, the
  response gets the single line that reports the failure (\<open>e2\<close>, unless the cleanup
  fails as well, in a session without any page, and its exception takes the place of
  \<open>e2\<close>). In every case the handler returns normally.
\<close>

theorem navigation_falls_back:
  assumes "session_inv s" and "open_page E = Inr pg"
      and "goto_result E (options_url (extensionId p)) idle_10s = Some e1"
  shows "fst (get_extension_logs E p s) = Inr () \<and>
         timeout idle_10s = 10000 \<and>
         (\<exists>rest. calls (snd (get_extension_logs E p s))
            = calls s @ [GetSelectedPageIdx, NewPage, GetSelectedPageIdx,
                         Goto pg (options_url (extensionId p)) idle_10s,
                         Goto pg (root_url (extensionId p)) idle_10s] @ rest) \<and>
         (goto_result E (root_url (extensionId p)) idle_10s = None \<longrightarrow>
            response (snd (get_extension_logs E p s))
              = response (snd (get_extension_logs (primary_ok E p) p s))) \<and>
         (\<forall>e2. goto_result E (root_url (extensionId p)) idle_10s = Some e2 \<longrightarrow>
            response (snd (get_extension_logs E p s))
              = response s @ [''Failed to retrieve extension logs: '' @
                   error_text (if selected s = None then IndexOutOfRangeError else e2)])"
proof -
  let ?g1 = "Goto pg (options_url (extensionId p)) idle_10s"
  let ?g2 = "Goto pg (root_url (extensionId p)) idle_10s"
  let ?script = "dev_logs_script (getTime E) p (storage_get E)"
  from evaluate_and_report [of E pg ?script p]
  obtain r ls where R: "\<And>t. andThen (evaluate E pg ?script) (report_logs E p) t
        = (r, t\<lparr>response := response t @ ls, calls := calls t @ [Evaluate pg]\<rparr>)"
    by blast
  have never: "fst (get_extension_logs E p s) = Inr ()"
    by (simp add: get_extension_logs_def catch_append_result)
  have tmo: "timeout idle_10s = 10000" by (simp add: idle_10s_def)
  show ?thesis
  proof (cases "goto_result E (root_url (extensionId p)) idle_10s")
    case None
    have a: "logs_with_page E p pg (opened pg s)
             = (r, (opened pg s)\<lparr>response := response s @ ls,
                                  calls := calls (opened pg s) @ [?g1, ?g2, Evaluate pg]\<rparr>)"
      by (simp add: logs_with_page_unfold logs_navigate_fallback [OF assms(3)] None R opened_fields)
    have open': "open_page (primary_ok E p) = Inr pg"
      using assms(2) by (simp add: primary_ok_fields)
    have b: "logs_with_page (primary_ok E p) p pg (opened pg s)
             = (r, (opened pg s)\<lparr>response := response s @ ls,
                                  calls := calls (opened pg s) @ [?g1, Evaluate pg]\<rparr>)"
      by (simp add: logs_with_page_unfold logs_navigate_primary primary_ok_fields
            evaluate_primary_ok report_logs_primary_ok R opened_fields)
    have same: "response (snd (get_extension_logs E p s))
                = response (snd (get_extension_logs (primary_ok E p) p s))"
      unfolding get_extension_logs_opened [OF assms(1,2) a]
        get_extension_logs_opened [OF assms(1) open' b]
      by (simp split: sum.split)
    have log: "calls (snd (get_extension_logs E p s))
               = calls s @ [GetSelectedPageIdx, NewPage, GetSelectedPageIdx, ?g1, ?g2]
                 @ [Evaluate pg, ClosePage (Some (length (pages s))), SetSelectedPageIdx (selected s)]"
      unfolding get_extension_logs_opened [OF assms(1,2) a] by (simp add: opened_fields)
    from log have ex: "\<exists>rest. calls (snd (get_extension_logs E p s))
               = calls s @ [GetSelectedPageIdx, NewPage, GetSelectedPageIdx, ?g1, ?g2] @ rest"
      by (rule exI)
    from never tmo same ex None show ?thesis by simp
  next
    case (Some e2)
    have a: "logs_with_page E p pg (opened pg s)
             = (Inl e2, (opened pg s)\<lparr>calls := calls (opened pg s) @ [?g1, ?g2]\<rparr>)"
      by (simp add: logs_with_page_unfold logs_navigate_fallback [OF assms(3)] Some)
    have line: "response (snd (get_extension_logs E p s))
                = response s @ [''Failed to retrieve extension logs: '' @
                     error_text (if selected s = None then IndexOutOfRangeError else e2)]"
      unfolding get_extension_logs_opened [OF assms(1,2) a] by (simp add: opened_fields)
    have log: "calls (snd (get_extension_logs E p s))
               = calls s @ [GetSelectedPageIdx, NewPage, GetSelectedPageIdx, ?g1, ?g2]
                 @ [ClosePage (Some (length (pages s))), SetSelectedPageIdx (selected s)]"
      unfolding get_extension_logs_opened [OF assms(1,2) a] by (simp add: opened_fields)
    from log have ex: "\<exists>rest. calls (snd (get_extension_logs E p s))
               = calls s @ [GetSelectedPageIdx, NewPage, GetSelectedPageIdx, ?g1, ?g2] @ rest"
      by (rule exI)
    from never tmo line ex Some show ?thesis by simp
  qed
qed

theorem navigation_falls_back_witness:
  "fst (get_extension_logs (options_fail example_env (extensionId example_params))
          example_params example_world) = Inr () \<and>
   response (snd (get_extension_logs (options_fail example_env (extensionId example_params))
                    example_params example_world))
     = response (snd (get_extension_logs
                        (primary_ok (options_fail example_env (extensionId example_params))
                           example_params)
                        example_params example_world)) \<and>
   response (snd (get_extension_logs
                    (example_env\<lparr>goto_result := (\<lambda>u opts. Some (Error ''Navigation timeout''))\<rparr>)
                    example_params example_world))
     = [''Failed to retrieve extension logs: Navigation timeout'']"
proof -
  let ?E = "options_fail example_env (extensionId example_params)"
  let ?F = "example_env\<lparr>goto_result := (\<lambda>u opts. Some (Error ''Navigation timeout''))\<rparr>"
  have inv: "session_inv example_world"
    by (simp add: session_inv_def example_world_def)
  have opened: "open_page ?E = Inr 7"
    by (simp add: options_fail_def example_env_def)
  have primary: "goto_result ?E (options_url (extensionId example_params)) idle_10s
                   = Some (Error ''Navigation timeout'')"
    by (simp add: options_fail_def)
  have fallback: "goto_result ?E (root_url (extensionId example_params)) idle_10s = None"
    by (simp add: options_fail_def example_env_def options_url_def root_url_def)
  from navigation_falls_back [OF inv opened primary] fallback
  have one: "fst (get_extension_logs ?E example_params example_world) = Inr () \<and>
             response (snd (get_extension_logs ?E example_params example_world))
               = response (snd (get_extension_logs (primary_ok ?E example_params)
                                  example_params example_world))"
    by blast
  have opened': "open_page ?F = Inr 7"
    by (simp add: example_env_def)
  have primary': "goto_result ?F (options_url (extensionId example_params)) idle_10s
                   = Some (Error ''Navigation timeout'')"
    by simp
  have fallback': "goto_result ?F (root_url (extensionId example_params)) idle_10s
                   = Some (Error ''Navigation timeout'')"
    by simp
  have start: "response example_world = []" "selected example_world = Some 1"
    by (simp_all add: example_world_def)
  from navigation_falls_back [OF inv opened' primary'] fallback'
  have "response (snd (get_extension_logs ?F example_params example_world))
        = response example_world @ [''Failed to retrieve extension logs: '' @
            error_text (if selected example_world = None then IndexOutOfRangeError
                        else Error ''Navigation timeout'')]"
    by blast
  then have two: "response (snd (get_extension_logs ?F example_params example_world))
        = [''Failed to retrieve extension logs: Navigation timeout'']"
    unfolding start by simp
  from one two show ?thesis by blast
qed

text \<open>
  Claim C5. The script evaluated in the page never throws: it returns a value for
  every outcome of the storage call, and an exception of its \<^verbatim>\<open>try\<close> body is returned as
  the error object. When the storage call fails with \<open>e\<close>, the value is
  the error object with the message of \<open>e\<close>, and the handler, in a session with a
  selected page and once the extension page was reached, returns normally after
  appending exactly one line to the response: \<^verbatim>\<open>Error: \<close> followed by that message.
\<close>

theorem storage_failure_is_one_error_line:
  assumes "session_inv s" and "selected s \<noteq> None" and "open_page E = Inr pg"
      and "navigated E p" and "evaluate_fault E = None" and "storage_get E = Inl e"
  shows "(\<forall>D q storage. \<exists>v. dev_logs_script D q storage = Inr v) \<and>
         (\<forall>D q storage error. dev_logs_try D q storage = Inl error \<longrightarrow>
            dev_logs_script D q storage
              = Inr (ErrorObject (''Failed to access extension storage: '' @ error_text error))) \<and>
         dev_logs_script (getTime E) p (storage_get E)
           = Inr (ErrorObject (''Failed to access extension storage: '' @ error_text e)) \<and>
         fst (get_extension_logs E p s) = Inr () \<and>
         response (snd (get_extension_logs E p s))
           = response s @ [''Error: Failed to access extension storage: '' @ error_text e]"
proof -
  have total: "\<forall>D q storage. \<exists>v. dev_logs_script D q storage = Inr v"
    by (simp add: dev_logs_script_def split: sum.split)
  have caught: "\<forall>D q storage error. dev_logs_try D q storage = Inl error \<longrightarrow>
            dev_logs_script D q storage
              = Inr (ErrorObject (''Failed to access extension storage: '' @ error_text error))"
    by (simp add: dev_logs_script_def)
  have script: "dev_logs_script (getTime E) p (storage_get E)
                = Inr (ErrorObject (''Failed to access extension storage: '' @ error_text e))"
    using assms(6) by (simp add: dev_logs_script_def dev_logs_try_def)
  have report: "\<And>t. report_logs E p
                       (ErrorObject (''Failed to access extension storage: '' @ error_text e)) t
                  = (Inr (), t\<lparr>response := response t @
                       [''Error: Failed to access extension storage: '' @ error_text e]\<rparr>)"
    by (simp add: report_logs_def appendResponseLine_def)
  from get_extension_logs_reported [OF assms(1-5) script report] total caught script
  show ?thesis by simp
qed

theorem storage_failure_is_one_error_line_witness:
  "response (snd (get_extension_logs
       (example_env\<lparr>storage_get := Inl (TypeError ''chrome.storage is undefined'')\<rparr>)
       example_params example_world))
   = [''Error: Failed to access extension storage: chrome.storage is undefined'']"
proof -
  let ?E = "example_env\<lparr>storage_get := Inl (TypeError ''chrome.storage is undefined'')\<rparr>"
  have inv: "session_inv example_world"
    by (simp add: session_inv_def example_world_def)
  have sel: "selected example_world \<noteq> None"
    by (simp add: example_world_def)
  have opened: "open_page ?E = Inr 7"
    by (simp add: example_env_def)
  have nav: "navigated ?E example_params"
    by (simp add: navigated_def example_env_def)
  have ev: "evaluate_fault ?E = None"
    by (simp add: example_env_def)
  have st: "storage_get ?E = Inl (TypeError ''chrome.storage is undefined'')"
    by simp
  have start: "response example_world = []"
    by (simp add: example_world_def)
  from storage_failure_is_one_error_line [OF inv sel opened nav ev st]
  have "response (snd (get_extension_logs ?E example_params example_world))
        = response example_world @ [''Error: Failed to access extension storage: '' @
            error_text (TypeError ''chrome.storage is undefined'')]"
    by blast
  then show ?thesis unfolding start by simp
qed

text \<open>
  Claim C6. When the storage holds nothing under the log key, or an empty list, or only
  entries that the filters exclude, the script returns the empty list, and the handler,
  in a session with a selected page and once the extension page was reached, returns
  normally with the six lines of the "no logs found" explanation (the statement, a
  blank line, and the three possible causes) appended to the response, and no error
  line.
\<close>

theorem missing_or_excluded_logs_are_explained:
  assumes "session_inv s" and "selected s \<noteq> None" and "open_page E = Inr pg"
      and "navigated E p" and "evaluate_fault E = None" and "storage_get E = Inr stored"
      and "stored = None \<or> stored = Some [] \<or> filtered_logs (getTime E) p (stored_logs stored) = []"
  shows "dev_logs_script (getTime E) p (storage_get E) = Inr (Logs []) \<and>
         fst (get_extension_logs E p s) = Inr () \<and>
         response (snd (get_extension_logs E p s)) = response s @ no_logs_lines"
proof -
  from assms(7) have none: "filtered_logs (getTime E) p (stored_logs stored) = []"
    by (auto simp: stored_logs_def filtered_logs_Nil)
  have script: "dev_logs_script (getTime E) p (storage_get E) = Inr (Logs [])"
    by (simp add: assms(6) dev_logs_script_returns none slice0_def)
  have report: "\<And>t. report_logs E p (Logs []) t
                  = (Inr (), t\<lparr>response := response t @ no_logs_lines\<rparr>)"
    by (simp add: report_logs_def append_lines_run)
  from get_extension_logs_reported [OF assms(1-5) script report] script
  show ?thesis by blast
qed

theorem missing_or_excluded_logs_are_explained_witness:
  "response (snd (get_extension_logs example_env example_params example_world))
   = [''No logs found matching the specified criteria.'', [], ''This could mean:'',
      ''- The extension does not implement a dev log sink'',
      ''- No logs have been generated yet'',
      ''- The filter criteria are too restrictive'']"
proof -
  have inv: "session_inv example_world"
    by (simp add: session_inv_def example_world_def)
  have sel: "selected example_world \<noteq> None"
    by (simp add: example_world_def)
  have opened: "open_page example_env = Inr 7"
    by (simp add: example_env_def)
  have nav: "navigated example_env example_params"
    by (simp add: navigated_def example_env_def)
  have ev: "evaluate_fault example_env = None"
    by (simp add: example_env_def)
  have st: "storage_get example_env = Inr None"
    by (simp add: example_env_def)
  have absent: "None = None \<or> None = Some [] \<or>
                filtered_logs (getTime example_env) example_params (stored_logs None) = []"
    by simp
  have start: "response example_world = []"
    by (simp add: example_world_def)
  from missing_or_excluded_logs_are_explained [OF inv sel opened nav ev st absent]
  have "response (snd (get_extension_logs example_env example_params example_world))
        = response example_world @ no_logs_lines"
    by blast
  then show ?thesis unfolding start by (simp add: no_logs_lines_def)
qed

section \<open>Properties of src/utils/extension.ts\<close>

text \<open>
  Claim C9, as amended. For every URL constructor \<open>U\<close> and every string \<open>url\<close>:
  a \<open>url\<close> that does not start with \<^verbatim>\<open>chrome-extension://\<close> is classified \<^verbatim>\<open>web\<close>, without
  a call of the constructor. For a \<open>url\<close> with that prefix, \<open>getExtensionContextType\<close>
  throws what the constructor throws when the string is not a valid URL; when the
  constructor returns, the answer is one of the six context types of an extension
  (\<^verbatim>\<open>service_worker\<close>, \<^verbatim>\<open>options\<close>, \<^verbatim>\<open>popup\<close>, \<^verbatim>\<open>sidebar\<close>, \<^verbatim>\<open>content_script\<close>,
  \<^verbatim>\<open>extension_page\<close>), never \<^verbatim>\<open>web\<close>, and it is \<^verbatim>\<open>service_worker\<close> whenever the lowercased
  pathname contains \<^verbatim>\<open>background\<close>. So every answer is one of seven values.
\<close>

theorem getExtensionContextType_classifies:
  "(\<not> startsWith url ''chrome-extension://'' \<longrightarrow> getExtensionContextType U url = Inr ''web'') \<and>
   (startsWith url ''chrome-extension://'' \<longrightarrow>
      (case U url of
         Inl e \<Rightarrow> getExtensionContextType U url = Inl e
       | Inr urlObj \<Rightarrow>
           (\<exists>v \<in> set extension_context_types. getExtensionContextType U url = Inr v) \<and>
           getExtensionContextType U url \<noteq> Inr ''web'' \<and>
           (includes_str (toLowerCase (pathname urlObj)) ''background'' \<longrightarrow>
              getExtensionContextType U url = Inr ''service_worker''))) \<and>
   (\<forall>v. getExtensionContextType U url = Inr v \<longrightarrow> v \<in> set context_types)"
  by (simp add: getExtensionContextType_def context_types_def extension_context_types_def
        Let_def split: sum.split)

theorem getExtensionContextType_classifies_witness:
  "getExtensionContextType URL_new ''https://example.com/background.js'' = Inr ''web'' \<and>
   getExtensionContextType URL_new ''chrome-extension://abcdefgh/js/Background.js''
     = Inr ''service_worker'' \<and>
   getExtensionContextType URL_new ''chrome-extension://abcdefgh:port/popup.html''
     = Inl (TypeError ''Invalid URL'')"
proof -
  have web: "\<not> startsWith ''https://example.com/background.js'' ''chrome-extension://''"
    by code_simp
  have ext: "startsWith ''chrome-extension://abcdefgh/js/Background.js'' ''chrome-extension://''"
    by code_simp
  have parsed: "URL_new ''chrome-extension://abcdefgh/js/Background.js''
                  = Inr \<lparr>hostname = ''abcdefgh'', pathname = ''/js/Background.js''\<rparr>"
    by code_simp
  have bg: "includes_str (toLowerCase ''/js/Background.js'') ''background''"
    by code_simp
  have ext': "startsWith ''chrome-extension://abcdefgh:port/popup.html'' ''chrome-extension://''"
    by code_simp
  have invalid: "URL_new ''chrome-extension://abcdefgh:port/popup.html''
                   = Inl (TypeError ''Invalid URL'')"
    by code_simp
  from getExtensionContextType_classifies [of "''https://example.com/background.js''" URL_new] web
  have one: "getExtensionContextType URL_new ''https://example.com/background.js'' = Inr ''web''"
    by blast
  from getExtensionContextType_classifies
         [of "''chrome-extension://abcdefgh/js/Background.js''" URL_new] ext parsed bg
  have two: "getExtensionContextType URL_new ''chrome-extension://abcdefgh/js/Background.js''
               = Inr ''service_worker''"
    by simp
  from getExtensionContextType_classifies
         [of "''chrome-extension://abcdefgh:port/popup.html''" URL_new] ext' invalid
  have three: "getExtensionContextType URL_new ''chrome-extension://abcdefgh:port/popup.html''
               = Inl (TypeError ''Invalid URL'')"
    by simp
  from one two three show ?thesis by blast
qed

text \<open>
  Claim C9 as stated fails: on a string with the prefix that is not a valid URL (a blank
  in the host), \<open>getExtensionContextType\<close> throws the constructor's \<^verbatim>\<open>TypeError\<close>.
\<close>

theorem getExtensionContextType_throws:
  "getExtensionContextType URL_new ''chrome-extension://a b/'' = Inl (TypeError ''Invalid URL'')"
  by code_simp

text \<open>
  Claim C10. For every URL constructor and all strings, \<open>isSameExtension\<close> returns a
  boolean and never throws; it is symmetric; it is false when one of the two strings
  does not start with \<^verbatim>\<open>chrome-extension://\<close>; and it is true of a string with that
  prefix and itself when the string parses as a URL.
\<close>

theorem isSameExtension_total_symmetric:
  "(\<exists>b. isSameExtension U url1 url2 = Inr b) \<and>
   isSameExtension U url1 url2 = isSameExtension U url2 url1 \<and>
   (\<not> startsWith url1 ''chrome-extension://'' \<or> \<not> startsWith url2 ''chrome-extension://''
      \<longrightarrow> isSameExtension U url1 url2 = Inr False) \<and>
   (startsWith url1 ''chrome-extension://'' \<and> (\<exists>urlObj. U url1 = Inr urlObj)
      \<longrightarrow> isSameExtension U url1 url1 = Inr True)"
  by (auto simp: isSameExtension_def extractExtensionId_def split: sum.splits)

theorem isSameExtension_witness:
  "isSameExtension URL_new ''chrome-extension://abcdefgh/popup.html'' ''https://example.com/''
     = Inr False \<and>
   isSameExtension URL_new ''chrome-extension://abcdefgh/popup.html''
     ''chrome-extension://abcdefgh/popup.html'' = Inr True"
proof -
  have web: "\<not> startsWith ''https://example.com/'' ''chrome-extension://''"
    by code_simp
  have ext: "startsWith ''chrome-extension://abcdefgh/popup.html'' ''chrome-extension://''"
    by code_simp
  have parsed: "URL_new ''chrome-extension://abcdefgh/popup.html''
                  = Inr \<lparr>hostname = ''abcdefgh'', pathname = ''/popup.html''\<rparr>"
    by code_simp
  note sym = isSameExtension_total_symmetric
         [of URL_new "''chrome-extension://abcdefgh/popup.html''" "''https://example.com/''"]
  from sym web
  have one: "isSameExtension URL_new ''chrome-extension://abcdefgh/popup.html''
               ''https://example.com/'' = Inr False"
    by blast
  from sym ext parsed
  have two: "isSameExtension URL_new ''chrome-extension://abcdefgh/popup.html''
               ''chrome-extension://abcdefgh/popup.html'' = Inr True"
    by blast
  from one two show ?thesis by blast
qed

end
